theory Spec2Isabelle
  imports Complex_Main
begin

section \<open>Python strings\<close>

text \<open>
  A Python \<open>str\<close> is modelled as a \<open>string\<close>; a character stands for a code point
  below 256. \<open>py_isspace\<close> is \<open>str.isspace\<close> on these code points, which is what
  \<open>str.strip()\<close> without an argument removes.
\<close>

definition nl :: char where
  "nl = CHR 0x0A"

definition dq :: string where
  "dq = [CHR 0x22]"

definition py_isspace :: "char \<Rightarrow> bool" where
  "py_isspace c = (c \<in> set [CHR 0x09, CHR 0x0A, CHR 0x0B, CHR 0x0C, CHR 0x0D,
                              CHR 0x1C, CHR 0x1D, CHR 0x1E, CHR 0x1F, CHR 0x20,
                              CHR 0x85, CHR 0xA0])"

definition py_strip :: "string \<Rightarrow> string" where
  "py_strip s = rev (dropWhile py_isspace (rev (dropWhile py_isspace s)))"

text \<open>\<open>s.replace(a, b)\<close> for one-character \<open>a\<close> and \<open>b\<close>.\<close>

definition py_replace :: "char \<Rightarrow> char \<Rightarrow> string \<Rightarrow> string" where
  "py_replace a b s = map (\<lambda>c. if c = a then b else c) s"

text \<open>
  \<open>lines = s.split('\n', 1)\<close>: \<open>first_line\<close> is \<open>lines[0]\<close> and \<open>rest_lines\<close> is
  \<open>lines[1] if len(lines) > 1 else ""\<close>.
\<close>

definition first_line :: "string \<Rightarrow> string" where
  "first_line s = takeWhile (\<lambda>c. c \<noteq> nl) s"

definition rest_lines :: "string \<Rightarrow> string" where
  "rest_lines s = (case dropWhile (\<lambda>c. c \<noteq> nl) s of [] \<Rightarrow> [] | _ # r \<Rightarrow> r)"

text \<open>\<open>sep.join(xs)\<close>.\<close>

fun py_join :: "string \<Rightarrow> string list \<Rightarrow> string" where
  "py_join sep [] = []"
| "py_join sep [x] = x"
| "py_join sep (x # y # r) = x @ sep @ py_join sep (y # r)"

text \<open>\<open>m in s\<close> for strings: \<open>m\<close> occurs in \<open>s\<close> as a substring.\<close>

fun py_contains :: "string \<Rightarrow> string \<Rightarrow> bool" where
  "py_contains m [] = (m = [])"
| "py_contains m (c # cs) = (take (length m) (c # cs) = m \<or> py_contains m cs)"

text \<open>
  \<open>re.split('^' + m, s, flags=re.MULTILINE)\<close> for a literal, non-empty \<open>m\<close>: the text is
  cut at every occurrence of \<open>m\<close> that starts at the beginning of the text or right after
  a newline; the occurrences themselves are dropped. The flag \<open>bol\<close> says that the
  position is at the beginning of a line.
\<close>

function re_split_bol :: "string \<Rightarrow> bool \<Rightarrow> string \<Rightarrow> string list" where
  "re_split_bol m bol [] = [[]]"
| "re_split_bol m bol (c # cs) =
     (if m \<noteq> [] \<and> bol \<and> take (length m) (c # cs) = m
      then [] # re_split_bol m False (drop (length m) (c # cs))
      else (case re_split_bol m (c = nl) cs of
              [] \<Rightarrow> [[c]]
            | f # fs \<Rightarrow> (c # f) # fs))"
  by pat_completeness auto
termination
  by (relation "measure (\<lambda>(m, bol, s). length s)") auto

definition re_split :: "string \<Rightarrow> string \<Rightarrow> string list" where
  "re_split m s = re_split_bol m True s"

text \<open>Decimal rendering of a natural number, as an f-string renders an \<open>int\<close>.\<close>

definition digit_char :: "nat \<Rightarrow> char" where
  "digit_char d = ''0123456789'' ! d"

fun str_of_nat :: "nat \<Rightarrow> string" where
  "str_of_nat n = (if n < 10 then [digit_char n]
                   else str_of_nat (n div 10) @ [digit_char (n mod 10)])"

section \<open>Python dictionaries\<close>

text \<open>
  A \<open>dict\<close> keeps its keys in insertion order: an association list. \<open>d[k] = v\<close>
  replaces the value of a key that is present, in place, and appends a new key;
  \<open>d.update(other)\<close> assigns the items of \<open>other\<close> in their order.
\<close>

type_synonym ('k, 'v) pydict = "('k \<times> 'v) list"

fun dict_set :: "('k, 'v) pydict \<Rightarrow> 'k \<Rightarrow> 'v \<Rightarrow> ('k, 'v) pydict" where
  "dict_set [] k v = [(k, v)]"
| "dict_set (p # ps) k v = (if fst p = k then (k, v) # ps else p # dict_set ps k v)"

definition dict_update :: "('k, 'v) pydict \<Rightarrow> ('k, 'v) pydict \<Rightarrow> ('k, 'v) pydict" where
  "dict_update d other = foldl (\<lambda>acc (k, v). dict_set acc k v) d other"

definition dict_keys :: "('k, 'v) pydict \<Rightarrow> 'k list" where
  "dict_keys d = map fst d"

section \<open>Data model\<close>

record entry =
  description :: string
  chunk_file :: string

type_synonym directory = "(string, entry) pydict"

datatype file_state = Content string | Missing | Unreadable string

type_synonym files = "string \<Rightarrow> file_state"

datatype json =
    JNull
  | JBool bool
  | JInt int
  | JFloat real
  | JStr string
  | JArr "json list"
  | JObj "(string \<times> json) list"

datatype py_exc = TypeError | AttributeError | KeyError | OSError string

datatype call = AgentA string | AgentR string

datatype dir_file_state = DirAbsent | DirUnparsable | DirUnreadable string | DirStored directory

datatype dir_access = DirRead | DirWrite

text \<open>
  The environment of the program: what the file system allows, the two model
  providers, and the library functions whose code is not part of the repository.
  A provider takes the prompt and returns the content of its response (\<open>Inr\<close>) or
  fails with the text of the exception (\<open>Inl\<close>).
\<close>

record env =
  writable :: "string \<Rightarrow> bool"
  dir_writable :: bool
  path_stem :: "string \<Rightarrow> string"
  agent_a :: "string \<Rightarrow> string + string"
  agent_r :: "string \<Rightarrow> string + string"
  json_dumps :: "json \<Rightarrow> string"
  json_loads :: "string \<Rightarrow> json option"
  py_repr :: "json \<Rightarrow> string"
  py_str :: "json \<Rightarrow> string"

record world =
  files :: files
  dir_file :: dir_file_state

section \<open>Configuration\<close>

definition DIRECTORY_FILE :: string where
  "DIRECTORY_FILE = ''directory.json''"

definition CHUNKS_DIR :: string where
  "CHUNKS_DIR = ''chunks''"

definition sections_per_chunk :: nat where
  "sections_per_chunk = 2"

section \<open>Knowledge base parsing\<close>

text \<open>
  \<open>with open(path, 'w') as f: f.write(text)\<close> inside \<open>try\<close>: \<open>None\<close> when it raises.
  A failing write is taken to fail in \<open>open\<close>, so it leaves the file as it was.
\<close>

definition write_file :: "env \<Rightarrow> files \<Rightarrow> string \<Rightarrow> string \<Rightarrow> files option" where
  "write_file e fs path text =
     (if writable e path then Some (fs(path := Content text)) else None)"

definition file_prefix_of :: "string \<Rightarrow> string" where
  "file_prefix_of stem = py_replace (CHR ''-'') (CHR ''_'') (py_replace (CHR '' '') (CHR ''_'') stem)"

definition chunk_path :: "string \<Rightarrow> string" where
  "chunk_path section_id = CHUNKS_DIR @ ''/'' @ section_id @ ''.txt''"

definition chapter_id :: "string \<Rightarrow> nat \<Rightarrow> string" where
  "chapter_id file_prefix h1_idx = file_prefix @ ''_chapter_'' @ str_of_nat h1_idx"

definition group_id :: "string \<Rightarrow> nat \<Rightarrow> string" where
  "group_id file_prefix n = file_prefix @ ''_group_'' @ str_of_nat n"

text \<open>The state of the parsing loops: the files, \<open>directory_entries\<close>, \<open>chunk_count\<close>.\<close>

type_synonym pstate = "files \<times> directory \<times> nat"

text \<open>
  \<open>save_chunk\<close> is the \<open>try\<close> block that both loops end with: write the chunk, then add
  the entry and count it; when the write raises, nothing changes.
\<close>

definition save_chunk :: "env \<Rightarrow> string \<Rightarrow> string \<Rightarrow> string \<Rightarrow> pstate \<Rightarrow> pstate" where
  "save_chunk e section_id descr chunk_content st =
     (case st of (fs, directory_entries, chunk_count) \<Rightarrow>
        (case write_file e fs (chunk_path section_id) (py_strip chunk_content) of
           Some fs' \<Rightarrow>
             (fs',
              dict_set directory_entries section_id
                \<lparr>description = descr, chunk_file = chunk_path section_id\<rparr>,
              chunk_count + 1)
         | None \<Rightarrow> (fs, directory_entries, chunk_count)))"

text \<open>The loop over \<open>enumerate(h1_sections)\<close>.\<close>

fun h1_loop :: "env \<Rightarrow> string \<Rightarrow> (nat \<times> string) list \<Rightarrow> pstate \<Rightarrow> pstate" where
  "h1_loop e file_prefix [] st = st"
| "h1_loop e file_prefix ((h1_idx, h1_section) # rest) st =
     (if py_strip h1_section = [] then h1_loop e file_prefix rest st
      else if h1_idx = 0 then h1_loop e file_prefix rest st
      else
        (let h1_heading = py_strip (first_line h1_section);
             h1_content = rest_lines h1_section;
             section_id = chapter_id file_prefix h1_idx;
             chunk_content = ''# '' @ h1_heading @ [nl] @ h1_content
         in h1_loop e file_prefix rest (save_chunk e section_id h1_heading chunk_content st)))"

text \<open>
  The loop over \<open>h2_sections[1:]\<close>. The accumulator is the pair
  \<open>(current_chunk_sections, current_chunk_titles)\<close>; the identifier of a group is taken
  from \<open>len(directory_entries) + 1\<close>.
\<close>

definition group_description :: "string list \<Rightarrow> string" where
  "group_description current_chunk_titles =
     (if length current_chunk_titles = 1 then current_chunk_titles ! 0
      else current_chunk_titles ! 0 @ '' and '' @ last current_chunk_titles)"

definition rest_description :: "string list \<Rightarrow> string" where
  "rest_description current_chunk_titles =
     (if length current_chunk_titles = 1 then current_chunk_titles ! 0
      else current_chunk_titles ! 0 @ '' and others'')"

fun h2_loop :: "env \<Rightarrow> string \<Rightarrow> string list \<Rightarrow> string list \<times> string list \<Rightarrow> pstate
                \<Rightarrow> (string list \<times> string list) \<times> pstate" where
  "h2_loop e file_prefix [] cur st = (cur, st)"
| "h2_loop e file_prefix (section # rest) cur st =
     (if py_strip section = [] then h2_loop e file_prefix rest cur st
      else
        (let heading = py_strip (first_line section);
             section_content = rest_lines section;
             current_chunk_sections = fst cur @ [''## '' @ heading @ [nl] @ section_content];
             current_chunk_titles = snd cur @ [heading]
         in if length current_chunk_sections \<ge> sections_per_chunk
            then
              (let section_id = group_id file_prefix (length (fst (snd st)) + 1);
                   chunk_content = py_join [nl, nl] current_chunk_sections
               in h2_loop e file_prefix rest ([], [])
                    (save_chunk e section_id (group_description current_chunk_titles)
                       chunk_content st))
            else h2_loop e file_prefix rest (current_chunk_sections, current_chunk_titles) st))"

definition h2_grouping :: "env \<Rightarrow> string \<Rightarrow> string \<Rightarrow> pstate \<Rightarrow> pstate" where
  "h2_grouping e file_prefix content st =
     (let h2_sections = re_split ''## '' content
      in case h2_loop e file_prefix (drop 1 h2_sections) ([], []) st of
           ((current_chunk_sections, current_chunk_titles), st') \<Rightarrow>
             (if current_chunk_sections \<noteq> []
              then
                (let section_id = group_id file_prefix (length (fst (snd st')) + 1);
                     chunk_content = py_join [nl, nl] current_chunk_sections
                 in save_chunk e section_id (rest_description current_chunk_titles)
                      chunk_content st')
              else st'))"

text \<open>
  \<open>parse_content\<close> is \<open>parse_markdown_document\<close> from the point where the text of the
  document has been read; \<open>file_prefix\<close> is computed from \<open>Path(file_path).stem\<close>.
\<close>

definition parse_content :: "env \<Rightarrow> files \<Rightarrow> string \<Rightarrow> string \<Rightarrow> pstate" where
  "parse_content e fs content file_prefix =
     (let h1_sections = re_split ''# '' content;
          st = h1_loop e file_prefix (enumerate 0 h1_sections) (fs, [], 0)
      in if snd (snd st) = 0 then h2_grouping e file_prefix content st else st)"

definition parse_markdown_document :: "env \<Rightarrow> files \<Rightarrow> string \<Rightarrow> pstate" where
  "parse_markdown_document e fs file_path =
     (case fs file_path of
        Content content \<Rightarrow> parse_content e fs content (file_prefix_of (path_stem e file_path))
      | Missing \<Rightarrow> (fs, [], 0)
      | Unreadable msg \<Rightarrow> (fs, [], 0))"

section \<open>Directory store\<close>

text \<open>
  \<open>load_directory\<close> returns an empty dictionary when the file is absent or is not JSON;
  any other failure of \<open>open\<close> or of reading is not caught there.
\<close>

definition load_directory :: "world \<Rightarrow> py_exc + directory" where
  "load_directory w =
     (case dir_file w of
        DirAbsent \<Rightarrow> Inr []
      | DirUnparsable \<Rightarrow> Inr []
      | DirUnreadable msg \<Rightarrow> Inl (OSError msg)
      | DirStored d \<Rightarrow> Inr d)"

definition save_directory :: "env \<Rightarrow> world \<Rightarrow> directory \<Rightarrow> world" where
  "save_directory e w directory =
     (if dir_writable e then w\<lparr>dir_file := DirStored directory\<rparr> else w)"

definition create_directory_summary :: "env \<Rightarrow> directory \<Rightarrow> string" where
  "create_directory_summary e directory =
     json_dumps e
       (JObj (foldl (\<lambda>summary (section_id, details).
                       dict_set summary section_id
                         (JObj [(''description'', JStr (description details))]))
                [] directory))"

text \<open>
  \<open>load_document\<close> returns its result, the world after it, and the accesses it made to
  the directory file, in order.
\<close>

definition load_document :: "env \<Rightarrow> world \<Rightarrow> string
                              \<Rightarrow> (py_exc + bool) \<times> world \<times> dir_access list" where
  "load_document e w file_path =
     (case parse_markdown_document e (files w) file_path of
        (fs', new_entries, chunk_count) \<Rightarrow>
          (let w1 = w\<lparr>files := fs'\<rparr>
           in if chunk_count = 0 then (Inr False, w1, [])
              else
                (case load_directory w1 of
                   Inl ex \<Rightarrow> (Inl ex, w1, [DirRead])
                 | Inr directory \<Rightarrow>
                     (Inr True,
                      save_directory e w1 (dict_update directory new_entries),
                      [DirRead, DirWrite]))))"

text \<open>
  The loop of \<open>build_knowledge_directory\<close> over the markdown files of the knowledge
  folder; the state is the files, \<open>directory\<close> and \<open>total_sections\<close>.
\<close>

fun build_loop :: "env \<Rightarrow> string list \<Rightarrow> files \<times> directory \<times> nat
                   \<Rightarrow> files \<times> directory \<times> nat" where
  "build_loop e [] st = st"
| "build_loop e (file_path # rest) (fs, directory, total_sections) =
     (if fs file_path = Missing then build_loop e rest (fs, directory, total_sections)
      else
        (case parse_markdown_document e fs file_path of
           (fs', new_entries, chunk_count) \<Rightarrow>
             (if chunk_count > 0
              then build_loop e rest
                     (fs', dict_update directory new_entries, total_sections + chunk_count)
              else build_loop e rest (fs', directory, total_sections))))"

definition build_knowledge_directory :: "env \<Rightarrow> world \<Rightarrow> string list \<Rightarrow> py_exc + world" where
  "build_knowledge_directory e w knowledge_files =
     (if knowledge_files = [] then Inr w
      else
        (case load_directory w of
           Inl ex \<Rightarrow> Inl ex
         | Inr directory \<Rightarrow>
             (case build_loop e knowledge_files (files w, directory, 0) of
                (fs', directory', total_sections) \<Rightarrow>
                  Inr (save_directory e (w\<lparr>files := fs'\<rparr>) directory'))))"

section \<open>Prompts\<close>

definition sq :: string where
  "sq = [CHR 0x27]"

definition create_agent_a_prompt :: "string \<Rightarrow> string \<Rightarrow> string" where
  "create_agent_a_prompt user_query directory_summary =
     ''You are Agent A, a helpful but concise assistant with limited knowledge. ''
     @ ''Your available reference material is summarized in this directory: ''
     @ directory_summary @ [nl, nl]
     @ ''For the user'' @ sq @ ''s query: '' @ dq @ user_query @ dq @ [nl, nl]
     @ ''First, determine if you can answer confidently on your own. ''
     @ ''Rate your confidence from 1 to 10.'' @ [nl]
     @ ''If your confidence is 8 or higher, answer directly.'' @ [nl]
     @ ''If your confidence is below 8, you must consult reference material. ''
     @ ''Identify the most relevant section(s) from the directory to answer the query.''
     @ [nl, nl]
     @ ''IMPORTANT: Look for queries that require information from multiple sources:''
     @ [nl, nl]
     @ ''When in doubt, select multiple relevant sections rather than just one.'' @ [nl, nl]
     @ ''Respond ONLY in JSON format.'' @ [nl]
     @ ''- If answering directly, use: {'' @ dq @ ''needs_reference'' @ dq @ '': false, ''
     @ dq @ ''answer'' @ dq @ '': '' @ dq @ ''Your direct answer here.'' @ dq @ ''}'' @ [nl]
     @ ''- If delegating to ONE section, use: {'' @ dq @ ''needs_reference'' @ dq @ '': true, ''
     @ dq @ ''scope'' @ dq @ '': ['' @ dq @ ''directory_section_id'' @ dq @ ''], ''
     @ dq @ ''sub_query'' @ dq @ '': '' @ dq @ ''A precise question for the reference agent.''
     @ dq @ '', '' @ dq @ ''reason'' @ dq @ '': '' @ dq @ ''Why you need the reference.''
     @ dq @ ''}'' @ [nl]
     @ ''- If delegating to MULTIPLE sections, use: {'' @ dq @ ''needs_reference'' @ dq
     @ '': true, '' @ dq @ ''scope'' @ dq @ '': ['' @ dq @ ''section_id_1'' @ dq @ '', ''
     @ dq @ ''section_id_2'' @ dq @ '', '' @ dq @ ''section_id_3'' @ dq @ ''], ''
     @ dq @ ''sub_query'' @ dq @ '': '' @ dq @ ''A precise question for the reference agent.''
     @ dq @ '', '' @ dq @ ''reason'' @ dq @ '': '' @ dq @ ''Why you need multiple references.''
     @ dq @ ''}''"

definition create_agent_r_prompt :: "string \<Rightarrow> string \<Rightarrow> string" where
  "create_agent_r_prompt chunk_text sub_query =
     ''You are a meticulous expert tasked with answering a question based ONLY on the ''
     @ ''following text. Do not use any outside knowledge.'' @ [nl, nl]
     @ ''Text: '' @ chunk_text @ [nl, nl]
     @ ''Question: '' @ sub_query @ [nl, nl]
     @ ''Please provide a detailed, accurate answer based solely on the information ''
     @ ''provided in the text above.''"

definition create_multi_agent_r_prompt :: "string \<Rightarrow> string \<Rightarrow> string" where
  "create_multi_agent_r_prompt combined_chunks sub_query =
     ''You are a meticulous expert tasked with answering a question based ONLY on the ''
     @ ''following reference materials. Do not use any outside knowledge.'' @ [nl, nl]
     @ ''Reference Materials:'' @ [nl]
     @ combined_chunks @ [nl, nl]
     @ ''Question: '' @ sub_query @ [nl, nl]
     @ ''Please provide a comprehensive answer by analyzing all the provided reference ''
     @ ''materials. Synthesize information from different sections when relevant, but ''
     @ ''base your answer strictly on the text provided above.''"

definition synthesis_prompt :: "string \<Rightarrow> string \<Rightarrow> string" where
  "synthesis_prompt original_query agent_r_response =
     ''You are Agent A. You delegated a user'' @ sq @ ''s question to a reference agent ''
     @ ''and received a factual response. Now synthesize this information into a natural, ''
     @ ''conversational answer that directly addresses the user'' @ sq
     @ ''s original query.'' @ [nl, nl]
     @ ''Original user query: '' @ dq @ original_query @ dq @ [nl, nl]
     @ ''Reference agent'' @ sq @ ''s response: '' @ dq @ agent_r_response @ dq @ [nl, nl]
     @ ''Please rephrase this information into a natural, conversational answer that ''
     @ ''directly addresses the user'' @ sq @ ''s question. Make it sound helpful and ''
     @ ''engaging, not robotic.''"

section \<open>Agent A decision logic\<close>

text \<open>
  \<open>re.search(r'\{.*\}', s, re.DOTALL)\<close>: from the first opening brace to the last
  closing brace after it, if there is one.
\<close>

definition re_search_braces :: "string \<Rightarrow> string option" where
  "re_search_braces s =
     (case dropWhile (\<lambda>c. c \<noteq> CHR ''{'') s of
        [] \<Rightarrow> None
      | b # t \<Rightarrow>
          (case rev (dropWhile (\<lambda>c. c \<noteq> CHR ''}'') (rev t)) of
             [] \<Rightarrow> None
           | u # us \<Rightarrow> Some (b # u # us)))"

definition query_agent_a :: "env \<Rightarrow> string \<Rightarrow> directory \<Rightarrow> json" where
  "query_agent_a e user_query directory =
     (let directory_summary = create_directory_summary e directory;
          system_prompt = create_agent_a_prompt user_query directory_summary
      in case agent_a e system_prompt of
           Inl msg \<Rightarrow> JObj [(''error'', JStr msg)]
         | Inr content \<Rightarrow>
             (let response_content = py_strip content;
                  response_content' =
                    (case re_search_braces response_content of
                       Some json_match \<Rightarrow> json_match
                     | None \<Rightarrow> response_content)
              in case json_loads e response_content' of
                   None \<Rightarrow> JObj [(''error'', JStr ''malformed_json'')]
                 | Some decision \<Rightarrow> decision))"

section \<open>Agent R reference logic\<close>

text \<open>An f-string field \<open>{v}\<close>: a \<open>str\<close> is inserted as it is, any other value through \<open>str()\<close>.\<close>

definition format_value :: "env \<Rightarrow> json \<Rightarrow> string" where
  "format_value e v = (case v of JStr s \<Rightarrow> s | _ \<Rightarrow> py_str e v)"

definition query_agent_r_single :: "env \<Rightarrow> files \<Rightarrow> string \<Rightarrow> json \<Rightarrow> string \<times> call list" where
  "query_agent_r_single e fs cf sub_query =
     (case fs cf of
        Missing \<Rightarrow> (''Error: Chunk file '' @ sq @ cf @ sq @ '' not found.'', [])
      | Unreadable msg \<Rightarrow> (''Error querying Agent R_i: '' @ msg, [])
      | Content chunk_text \<Rightarrow>
          (let system_prompt = create_agent_r_prompt chunk_text (format_value e sub_query)
           in case agent_r e system_prompt of
                Inl msg \<Rightarrow> (''Error querying Agent R_i: '' @ msg, [AgentR system_prompt])
              | Inr content \<Rightarrow> (py_strip content, [AgentR system_prompt])))"

text \<open>
  The description of a chunk file: that of the first entry of \<open>directory.items()\<close>
  with this \<open>chunk_file\<close>.
\<close>

definition section_desc_of :: "directory \<Rightarrow> string \<Rightarrow> string" where
  "section_desc_of directory cf =
     (case find (\<lambda>(section_id, details). chunk_file details = cf) directory of
        Some (section_id, details) \<Rightarrow> description details
      | None \<Rightarrow> ''Unknown Section'')"

definition section_header :: "nat \<Rightarrow> string \<Rightarrow> string" where
  "section_header i section_desc =
     [nl] @ ''--- REFERENCE SECTION '' @ str_of_nat i @ '': '' @ section_desc @ '' ---'' @ [nl]"

definition load_error_marker :: "string \<Rightarrow> string" where
  "load_error_marker cf = [nl] @ ''--- ERROR: Could not load '' @ cf @ '' ---'' @ [nl]"

text \<open>
  The loop over \<open>enumerate(chunk_files, 1)\<close> that builds \<open>combined_chunks\<close>. Only
  \<open>FileNotFoundError\<close> is caught inside the loop; any other failure of reading leaves
  the loop (\<open>Inl\<close>, with the text of the exception).
\<close>

fun combine_loop :: "files \<Rightarrow> directory \<Rightarrow> (nat \<times> string) list \<Rightarrow> string \<Rightarrow> string + string" where
  "combine_loop fs directory [] combined_chunks = Inr combined_chunks"
| "combine_loop fs directory ((i, cf) # rest) combined_chunks =
     (case fs cf of
        Content chunk_content \<Rightarrow>
          combine_loop fs directory rest
            (combined_chunks @ section_header i (section_desc_of directory cf)
               @ chunk_content @ [nl])
      | Missing \<Rightarrow>
          combine_loop fs directory rest (combined_chunks @ load_error_marker cf)
      | Unreadable msg \<Rightarrow> Inl msg)"

definition query_agent_r_multiple :: "env \<Rightarrow> files \<Rightarrow> string list \<Rightarrow> json \<Rightarrow> directory
                                      \<Rightarrow> string \<times> call list" where
  "query_agent_r_multiple e fs chunk_files sub_query directory =
     (case combine_loop fs directory (enumerate 1 chunk_files) [] of
        Inl msg \<Rightarrow> (''Error querying Agent R_i with multiple chunks: '' @ msg, [])
      | Inr combined_chunks \<Rightarrow>
          (let system_prompt =
                 create_multi_agent_r_prompt combined_chunks (format_value e sub_query)
           in case agent_r e system_prompt of
                Inl msg \<Rightarrow>
                  (''Error querying Agent R_i with multiple chunks: '' @ msg,
                   [AgentR system_prompt])
              | Inr content \<Rightarrow> (py_strip content, [AgentR system_prompt])))"

section \<open>Response synthesis\<close>

definition synthesize_response :: "env \<Rightarrow> string \<Rightarrow> string \<Rightarrow> string \<times> call list" where
  "synthesize_response e original_query agent_r_response =
     (let prompt = synthesis_prompt original_query agent_r_response
      in case agent_a e prompt of
           Inl msg \<Rightarrow> (agent_r_response, [AgentA prompt])
         | Inr content \<Rightarrow> (py_strip content, [AgentA prompt]))"

section \<open>Main system workflow\<close>

text \<open>Truth value of a value read from JSON.\<close>

definition py_truthy :: "json \<Rightarrow> bool" where
  "py_truthy v =
     (case v of
        JNull \<Rightarrow> False
      | JBool b \<Rightarrow> b
      | JInt i \<Rightarrow> i \<noteq> 0
      | JFloat r \<Rightarrow> r \<noteq> 0
      | JStr s \<Rightarrow> s \<noteq> []
      | JArr xs \<Rightarrow> xs \<noteq> []
      | JObj kvs \<Rightarrow> kvs \<noteq> [])"

text \<open>\<open>"error" in agent_a_decision\<close>: a key of a dict, a substring of a str, an element
  of a list; a \<open>TypeError\<close> on anything else.\<close>

definition error_in :: "json \<Rightarrow> py_exc + bool" where
  "error_in v =
     (case v of
        JObj kvs \<Rightarrow> Inr (''error'' \<in> set (dict_keys kvs))
      | JStr s \<Rightarrow> Inr (py_contains ''error'' s)
      | JArr xs \<Rightarrow> Inr (JStr ''error'' \<in> set xs)
      | _ \<Rightarrow> Inl TypeError)"

text \<open>\<open>d.get(k, default)\<close>.\<close>

definition dict_get :: "('k, 'v) pydict \<Rightarrow> 'k \<Rightarrow> 'v \<Rightarrow> 'v" where
  "dict_get d k dflt = (case map_of d k of Some v \<Rightarrow> v | None \<Rightarrow> dflt)"

text \<open>\<open>s in directory\<close> for one element of the scope: a list or a dict is unhashable.\<close>

definition key_in :: "directory \<Rightarrow> json \<Rightarrow> py_exc + bool" where
  "key_in directory s =
     (case s of
        JStr k \<Rightarrow> Inr (k \<in> set (dict_keys directory))
      | JArr xs \<Rightarrow> Inl TypeError
      | JObj kvs \<Rightarrow> Inl TypeError
      | _ \<Rightarrow> Inr False)"

text \<open>\<open>[s for s in scope_list if s not in directory]\<close>.\<close>

fun missing_scopes_of :: "directory \<Rightarrow> json list \<Rightarrow> py_exc + json list" where
  "missing_scopes_of directory [] = Inr []"
| "missing_scopes_of directory (s # rest) =
     (case key_in directory s of
        Inl ex \<Rightarrow> Inl ex
      | Inr present \<Rightarrow>
          (case missing_scopes_of directory rest of
             Inl ex \<Rightarrow> Inl ex
           | Inr ms \<Rightarrow> Inr (if present then ms else s # ms)))"

text \<open>\<open>directory[s]\<close>, and the list \<open>[directory[s] for s in scope_list]\<close>.\<close>

definition dir_lookup :: "directory \<Rightarrow> json \<Rightarrow> py_exc + entry" where
  "dir_lookup directory s =
     (case s of
        JStr k \<Rightarrow> (case map_of directory k of Some details \<Rightarrow> Inr details | None \<Rightarrow> Inl KeyError)
      | JArr xs \<Rightarrow> Inl TypeError
      | JObj kvs \<Rightarrow> Inl TypeError
      | _ \<Rightarrow> Inl KeyError)"

fun dir_lookup_all :: "directory \<Rightarrow> json list \<Rightarrow> py_exc + entry list" where
  "dir_lookup_all directory [] = Inr []"
| "dir_lookup_all directory (s # rest) =
     (case dir_lookup directory s of
        Inl ex \<Rightarrow> Inl ex
      | Inr details \<Rightarrow>
          (case dir_lookup_all directory rest of
             Inl ex \<Rightarrow> Inl ex
           | Inr ds \<Rightarrow> Inr (details # ds)))"

text \<open>The \<open>repr\<close> of a list, as an f-string renders \<open>missing_scopes\<close>.\<close>

definition repr_list :: "env \<Rightarrow> json list \<Rightarrow> string" where
  "repr_list e xs = ''['' @ py_join '', '' (map (py_repr e) xs) @ '']''"

definition error_reply :: string where
  "error_reply = ''I encountered an error processing your query. Please try rephrasing it.''"

definition no_answer_reply :: string where
  "no_answer_reply = ''I couldn'' @ sq @ ''t generate a proper response.''"

definition scope_format_reply :: string where
  "scope_format_reply =
     ''I encountered an error with the scope format. Please try rephrasing your query.''"

definition missing_reply :: "env \<Rightarrow> json list \<Rightarrow> string" where
  "missing_reply e missing_scopes =
     ''I wanted to check my reference material for '' @ repr_list e missing_scopes
     @ '', but those sections don'' @ sq @ ''t exist in my knowledge base.''"

text \<open>Steps 3 and 4 of \<open>process_user_query\<close>, once every scope is known to exist.\<close>

definition dispatch :: "env \<Rightarrow> files \<Rightarrow> string \<Rightarrow> directory \<Rightarrow> json list \<Rightarrow> json
                        \<Rightarrow> (py_exc + json) \<times> call list" where
  "dispatch e fs user_query directory scope_list sub_query =
     (case dir_lookup_all directory scope_list of
        Inl ex \<Rightarrow> (Inl ex, [])
      | Inr details \<Rightarrow>
          (let (agent_r_response, calls) =
                 (if length scope_list = 1
                  then query_agent_r_single e fs (chunk_file (details ! 0)) sub_query
                  else query_agent_r_multiple e fs (map chunk_file details) sub_query directory);
               (final_response, calls') = synthesize_response e user_query agent_r_response
           in (Inr (JStr final_response), calls @ calls')))"

text \<open>
  The part of \<open>process_user_query\<close> after Agent A has been queried: the result
  (a raised exception or the value returned) and the calls made to the providers.
\<close>

definition route_decision :: "env \<Rightarrow> files \<Rightarrow> string \<Rightarrow> directory \<Rightarrow> json
                              \<Rightarrow> (py_exc + json) \<times> call list" where
  "route_decision e fs user_query directory agent_a_decision =
     (case error_in agent_a_decision of
        Inl ex \<Rightarrow> (Inl ex, [])
      | Inr True \<Rightarrow> (Inr (JStr error_reply), [])
      | Inr False \<Rightarrow>
          (case agent_a_decision of
             JObj kvs \<Rightarrow>
               (if \<not> py_truthy (dict_get kvs ''needs_reference'' (JBool False))
                then (Inr (dict_get kvs ''answer'' (JStr no_answer_reply)), [])
                else
                  (let scope = dict_get kvs ''scope'' JNull;
                       sub_query = dict_get kvs ''sub_query'' JNull;
                       scope_list = (case scope of
                                       JStr s \<Rightarrow> Some [scope]
                                     | JArr xs \<Rightarrow> Some xs
                                     | _ \<Rightarrow> None)
                   in case scope_list of
                        None \<Rightarrow> (Inr (JStr scope_format_reply), [])
                      | Some scope_list \<Rightarrow>
                          (case missing_scopes_of directory scope_list of
                             Inl ex \<Rightarrow> (Inl ex, [])
                           | Inr missing_scopes \<Rightarrow>
                               (if missing_scopes \<noteq> []
                                then (Inr (JStr (missing_reply e missing_scopes)), [])
                                else dispatch e fs user_query directory scope_list sub_query))))
           | _ \<Rightarrow> (Inl AttributeError, [])))"

definition process_user_query :: "env \<Rightarrow> files \<Rightarrow> string \<Rightarrow> directory
                                  \<Rightarrow> (py_exc + json) \<times> call list" where
  "process_user_query e fs user_query directory =
     (let agent_a_decision = query_agent_a e user_query directory;
          asked = AgentA (create_agent_a_prompt user_query
                            (create_directory_summary e directory))
      in case route_decision e fs user_query directory agent_a_decision of
           (result, calls) \<Rightarrow> (result, asked # calls))"

section \<open>Example data\<close>

text \<open>
  The directory of the scenario of the specification: a document \<open>doc\<close> with the two
  top-level headings Overview and Specs, and the chunk files that belong to it.
\<close>

definition demo_directory :: directory where
  "demo_directory =
     [(''doc_chapter_1'',
       \<lparr>description = ''Overview'', chunk_file = ''chunks/doc_chapter_1.txt''\<rparr>),
      (''doc_chapter_2'',
       \<lparr>description = ''Specs'', chunk_file = ''chunks/doc_chapter_2.txt''\<rparr>)]"

definition demo_files :: files where
  "demo_files p =
     (if p = ''chunks/doc_chapter_1.txt'' then Content ''# Overview''
      else if p = ''chunks/doc_chapter_2.txt'' then Content ''# Specs''
      else if p = ''doc.md''
      then Content (''# Overview'' @ [nl] @ ''Text'' @ [nl] @ ''# Specs'' @ [nl] @ ''More'' @ [nl])
      else if p = ''notes.md'' then Content ''plain text''
      else Missing)"

text \<open>
  An environment in which Agent A answers every prompt with a text that is read as the
  given decision, Agent R answers every prompt with \<open>facts\<close>, and every write succeeds.
\<close>

definition demo_repr :: "json \<Rightarrow> string" where
  "demo_repr v = (case v of JStr s \<Rightarrow> sq @ s @ sq | _ \<Rightarrow> ''?'')"

definition demo_env :: "json \<Rightarrow> env" where
  "demo_env decision =
     \<lparr>writable = (\<lambda>p. True), dir_writable = True, path_stem = takeWhile (\<lambda>c. c \<noteq> CHR ''.''),
      agent_a = (\<lambda>p. Inr ''{}''), agent_r = (\<lambda>p. Inr ''facts''),
      json_dumps = (\<lambda>v. ''{}''), json_loads = (\<lambda>s. Some decision),
      py_repr = demo_repr, py_str = (\<lambda>v. ''None'')\<rparr>"

text \<open>The same environment with the provider of Agent A out of service.\<close>

definition offline_env :: env where
  "offline_env = (demo_env JNull)\<lparr>agent_a := (\<lambda>p. Inl ''offline'')\<rparr>"

section \<open>Descriptions of the chunker's results\<close>

text \<open>
  Writing a list of chunk bodies to their paths, in order. The theorems below state
  which chunks a run produces through these functions.
\<close>

definition write_chunks :: "files \<Rightarrow> (string \<times> string) list \<Rightarrow> files" where
  "write_chunks fs ws = foldl (\<lambda>acc (path, body). acc(path := Content body)) fs ws"

text \<open>
  The fragments that the loop over the top-level sections turns into chunks: not the
  fragment before the first heading, not a fragment of white space only, and only
  where the chunk file can be written. Each is paired with its position.
\<close>

definition chapter_keep :: "env \<Rightarrow> string \<Rightarrow> nat \<times> string \<Rightarrow> bool" where
  "chapter_keep e file_prefix p =
     (fst p \<noteq> 0 \<and> py_strip (snd p) \<noteq> []
      \<and> writable e (chunk_path (chapter_id file_prefix (fst p))))"

definition chapters_kept :: "env \<Rightarrow> string \<Rightarrow> string \<Rightarrow> (nat \<times> string) list" where
  "chapters_kept e file_prefix content =
     filter (chapter_keep e file_prefix) (enumerate 0 (re_split ''# '' content))"

definition chapter_entry :: "string \<Rightarrow> nat \<times> string \<Rightarrow> string \<times> entry" where
  "chapter_entry file_prefix p =
     (chapter_id file_prefix (fst p),
      \<lparr>description = py_strip (first_line (snd p)),
       chunk_file = chunk_path (chapter_id file_prefix (fst p))\<rparr>)"

definition chapter_body :: "string \<Rightarrow> string" where
  "chapter_body f = py_strip (''# '' @ py_strip (first_line f) @ [nl] @ rest_lines f)"

definition chapter_write :: "string \<Rightarrow> nat \<times> string \<Rightarrow> string \<times> string" where
  "chapter_write file_prefix p = (chunk_path (chapter_id file_prefix (fst p)), chapter_body (snd p))"

text \<open>Entries of a later parse: one that revises an id of the example, one that does not.\<close>

definition revised_entries :: directory where
  "revised_entries =
     [(''doc_chapter_2'',
       \<lparr>description = ''Specifications'', chunk_file = ''chunks/doc_chapter_2.txt''\<rparr>),
      (''doc_chapter_3'',
       \<lparr>description = ''Safety'', chunk_file = ''chunks/doc_chapter_3.txt''\<rparr>)]"

definition other_entries :: directory where
  "other_entries =
     [(''notes_chapter_1'',
       \<lparr>description = ''Remarks'', chunk_file = ''chunks/notes_chapter_1.txt''\<rparr>)]"

definition demo_world :: world where
  "demo_world = \<lparr>files = demo_files, dir_file = DirStored demo_directory\<rparr>"

text \<open>Decisions of Agent A used in the examples.\<close>

definition unknown_scope_decision :: json where
  "unknown_scope_decision =
     JObj [(''needs_reference'', JBool True), (''scope'', JArr [JStr ''doc_chapter_9'']),
           (''sub_query'', JStr ''What are the specs?''), (''reason'', JStr ''specs'')]"

definition flagless_decision :: json where
  "flagless_decision = JObj [(''answer'', JStr ''Hello'')]"

definition empty_sub_query_decision :: json where
  "empty_sub_query_decision =
     JObj [(''needs_reference'', JBool True), (''scope'', JArr [JStr ''doc_chapter_1'']),
           (''sub_query'', JStr [])]"

definition bare_scope_decision :: json where
  "bare_scope_decision =
     JObj [(''needs_reference'', JBool True), (''scope'', JStr ''doc_chapter_2'')]"

definition reversed_scope_decision :: json where
  "reversed_scope_decision =
     JObj [(''needs_reference'', JBool True),
           (''scope'', JArr [JStr ''doc_chapter_2'', JStr ''doc_chapter_1'']),
           (''sub_query'', JStr ''Compare them.'')]"

text \<open>The example files with the first chunk unreadable, and with it missing.\<close>

definition locked_files :: files where
  "locked_files p =
     (if p = ''chunks/doc_chapter_1.txt'' then Unreadable ''[Errno 13] Permission denied''
      else demo_files p)"

definition lost_files :: files where
  "lost_files p = (if p = ''chunks/doc_chapter_1.txt'' then Missing else demo_files p)"

section \<open>Descriptions of the combined context\<close>

text \<open>
  What one chunk file contributes to the combined context when reading it either
  succeeds or finds no file: its header and text, or the error marker.
\<close>

definition section_text :: "files \<Rightarrow> directory \<Rightarrow> nat \<times> string \<Rightarrow> string" where
  "section_text fs directory p =
     (case fs (snd p) of
        Content chunk_content \<Rightarrow>
          section_header (fst p) (section_desc_of directory (snd p)) @ chunk_content @ [nl]
      | Missing \<Rightarrow> load_error_marker (snd p)
      | Unreadable msg \<Rightarrow> [])"

text \<open>The section of a chunk whose entry and text are known.\<close>

definition reference_section :: "nat \<times> entry \<times> string \<Rightarrow> string" where
  "reference_section p =
     section_header (fst p) (description (fst (snd p))) @ snd (snd p) @ [nl]"



text \<open>Example documents.\<close>

definition scenario_doc :: string where
  "scenario_doc = ''# Overview'' @ [nl] @ ''Text'' @ [nl] @ ''# Specs'' @ [nl] @ ''More'' @ [nl]"


section \<open>Descriptions of the grouping of second-level sections\<close>

text \<open>
  The second-level sections that the grouping loop takes up, each as its title and
  the text it contributes to a chunk: the sections after the first fragment that are
  not white space only.
\<close>

definition h2_section :: "string \<Rightarrow> string \<times> string" where
  "h2_section s =
     (py_strip (first_line s), ''## '' @ py_strip (first_line s) @ [nl] @ rest_lines s)"

definition h2_sections_of :: "string \<Rightarrow> (string \<times> string) list" where
  "h2_sections_of content =
     map h2_section (filter (\<lambda>s. py_strip s \<noteq> []) (drop 1 (re_split ''## '' content)))"

text \<open>Consecutive batches of two, with a last batch of one when the number is odd.\<close>

fun batches :: "'a list \<Rightarrow> 'a list list" where
  "batches [] = []"
| "batches [a] = [[a]]"
| "batches (a # b # r) = [a, b] # batches r"

fun batch_description :: "(string \<times> string) list \<Rightarrow> string" where
  "batch_description [] = []"
| "batch_description [a] = fst a"
| "batch_description (a # b # r) = fst a @ '' and '' @ fst (last (b # r))"

definition batch_body :: "(string \<times> string) list \<Rightarrow> string" where
  "batch_body b = py_strip (py_join [nl, nl] (map snd b))"

text \<open>
  The batches that become chunks, each with the number in its id: a batch whose chunk
  file cannot be written is dropped and its number goes to the next batch.
\<close>

fun numbered_groups :: "env \<Rightarrow> string \<Rightarrow> nat \<Rightarrow> 'b list \<Rightarrow> (nat \<times> 'b) list" where
  "numbered_groups e file_prefix n [] = []"
| "numbered_groups e file_prefix n (b # bs) =
     (if writable e (chunk_path (group_id file_prefix (Suc n)))
      then (Suc n, b) # numbered_groups e file_prefix (Suc n) bs
      else numbered_groups e file_prefix n bs)"

definition group_entry :: "string \<Rightarrow> nat \<times> (string \<times> string) list \<Rightarrow> string \<times> entry" where
  "group_entry file_prefix p =
     (group_id file_prefix (fst p),
      \<lparr>description = batch_description (snd p),
       chunk_file = chunk_path (group_id file_prefix (fst p))\<rparr>)"

definition group_write :: "string \<Rightarrow> nat \<times> (string \<times> string) list \<Rightarrow> string \<times> string" where
  "group_write file_prefix p = (chunk_path (group_id file_prefix (fst p)), batch_body (snd p))"

definition groups_of :: "env \<Rightarrow> string \<Rightarrow> string \<Rightarrow> (nat \<times> (string \<times> string) list) list" where
  "groups_of e file_prefix content =
     numbered_groups e file_prefix 0 (batches (h2_sections_of content))"

text \<open>Saving one batch in a state of the chunker, as both places of the code do.\<close>

definition save_group :: "env \<Rightarrow> string \<Rightarrow> pstate \<Rightarrow> (string \<times> string) list \<Rightarrow> pstate" where
  "save_group e file_prefix st b =
     save_chunk e (group_id file_prefix (length (fst (snd st)) + 1)) (batch_description b)
       (py_join [nl, nl] (map snd b)) st"

text \<open>The end of the grouping: what is left in the accumulator becomes a last chunk.\<close>

definition flush :: "env \<Rightarrow> string \<Rightarrow> (string list \<times> string list) \<times> pstate \<Rightarrow> pstate" where
  "flush e p r =
     (case r of ((current_chunk_sections, current_chunk_titles), st') \<Rightarrow>
        (if current_chunk_sections \<noteq> []
         then save_chunk e (group_id p (length (fst (snd st')) + 1))
                (rest_description current_chunk_titles)
                (py_join [nl, nl] current_chunk_sections) st'
         else st'))"

text \<open>
  The fallback in the words of the specification: the headings after the first
  fragment, all of them, in batches of two, numbered from one; each chunk as its id
  and its description.
\<close>

definition spec_group_chunks :: "string \<Rightarrow> string \<Rightarrow> (string \<times> string) list" where
  "spec_group_chunks file_prefix content =
     map (\<lambda>(n, b). (group_id file_prefix n, batch_description b))
       (enumerate 1 (batches (map h2_section (drop 1 (re_split ''## '' content)))))"

definition gap_doc :: string where
  "gap_doc = ''## A'' @ [nl] @ ''a'' @ [nl] @ ''## '' @ [nl] @ ''## B'' @ [nl] @ ''b'' @ [nl]
             @ ''## C'' @ [nl] @ ''c'' @ [nl]"

text \<open>
  A directory as the chunker builds it: every entry points to the chunk file named
  after its section id.
\<close>

definition chunker_located :: "directory \<Rightarrow> bool" where
  "chunker_located d = list_all (\<lambda>(section_id, details). chunk_file details = chunk_path section_id) d"

section \<open>Dictionaries\<close>

lemma map_of_dict_set: "map_of (dict_set d k v) = (map_of d)(k \<mapsto> v)"
  by (induction d) auto

lemma keys_dict_set:
  "dict_keys (dict_set d k v) = (if k \<in> set (dict_keys d) then dict_keys d else dict_keys d @ [k])"
  by (induction d) (auto simp: dict_keys_def)

lemma dict_set_new: "k \<notin> set (dict_keys d) \<Longrightarrow> dict_set d k v = d @ [(k, v)]"
  by (induction d) (auto simp: dict_keys_def)

lemma dict_update_Nil: "dict_update d [] = d"
  by (simp add: dict_update_def)

lemma dict_update_Cons: "dict_update d ((k, v) # ps) = dict_update (dict_set d k v) ps"
  by (simp add: dict_update_def)

lemma map_of_dict_update_apply:
  "distinct (dict_keys other) \<Longrightarrow>
   map_of (dict_update d other) x = (case map_of other x of Some v \<Rightarrow> Some v | None \<Rightarrow> map_of d x)"
proof (induction other arbitrary: d)
  case Nil
  then show ?case by (simp add: dict_update_Nil)
next
  case (Cons p ps)
  obtain k v where p: "p = (k, v)" by (cases p)
  from Cons.prems have nk: "map_of ps k = None" and dps: "distinct (dict_keys ps)"
    by (auto simp: dict_keys_def p map_of_eq_None_iff)
  show ?case
    using nk by (simp add: p dict_update_Cons Cons.IH[OF dps] map_of_dict_set split: option.splits)
qed

lemma map_of_dict_update:
  "distinct (dict_keys other) \<Longrightarrow> map_of (dict_update d other) = map_of d ++ map_of other"
  by (rule ext) (simp add: map_of_dict_update_apply map_add_def)

lemma keys_dict_update:
  "set (dict_keys (dict_update d other)) = set (dict_keys d) \<union> set (dict_keys other)"
proof (induction other arbitrary: d)
  case Nil
  then show ?case by (simp add: dict_update_Nil dict_keys_def)
next
  case (Cons p ps)
  obtain k v where p: "p = (k, v)" by (cases p)
  have "set (dict_keys (dict_set d k v)) = insert k (set (dict_keys d))"
    by (auto simp: keys_dict_set)
  moreover have "set (dict_keys (p # ps)) = insert k (set (dict_keys ps))"
    by (simp add: p dict_keys_def)
  ultimately show ?case
    by (simp add: p dict_update_Cons Cons.IH)
qed

section \<open>Response synthesis\<close>

text \<open>
  C9. When the call to the provider fails for the synthesis prompt,
  \<open>synthesize_response\<close> returns the factual answer it was given, unchanged, and a
  dispatch whose synthesis fails still returns an answer: the response of the
  reference agent.
\<close>

theorem synthesis_failure_returns_factual_answer:
  assumes "agent_a e (synthesis_prompt original_query factual_answer) = Inl msg"
  shows "fst (synthesize_response e original_query factual_answer) = factual_answer
       \<and> (\<forall>fs directory scope_list sub_query details.
             dir_lookup_all directory scope_list = Inr details
             \<and> factual_answer =
                 fst (if length scope_list = 1
                      then query_agent_r_single e fs (chunk_file (details ! 0)) sub_query
                      else query_agent_r_multiple e fs (map chunk_file details) sub_query
                             directory)
             \<longrightarrow> fst (dispatch e fs original_query directory scope_list sub_query)
                   = Inr (JStr factual_answer))"
  using assms
  by (auto simp: synthesize_response_def dispatch_def Let_def split: prod.splits)

theorem synthesis_failure_returns_factual_answer_witness:
  "agent_a offline_env (synthesis_prompt ''What is it?'' ''facts'') = Inl ''offline''
   \<and> fst (synthesize_response offline_env ''What is it?'' ''facts'') = ''facts''
   \<and> fst (dispatch offline_env demo_files ''What is it?'' demo_directory
             [JStr ''doc_chapter_1''] (JStr ''What is the device?''))
       = Inr (JStr ''facts'')"
proof -
  let ?d = "\<lparr>description = ''Overview'', chunk_file = ''chunks/doc_chapter_1.txt''\<rparr>"
  have h: "agent_a offline_env (synthesis_prompt ''What is it?'' ''facts'') = Inl ''offline''"
    by (simp add: offline_env_def demo_env_def)
  have l: "dir_lookup_all demo_directory [JStr ''doc_chapter_1''] = Inr [?d]"
    by (simp add: dir_lookup_def demo_directory_def)
  have f: "''facts'' =
             fst (if length [JStr ''doc_chapter_1''] = 1
                  then query_agent_r_single offline_env demo_files (chunk_file ([?d] ! 0))
                         (JStr ''What is the device?'')
                  else query_agent_r_multiple offline_env demo_files (map chunk_file [?d])
                         (JStr ''What is the device?'') demo_directory)"
    by (simp add: query_agent_r_single_def demo_files_def offline_env_def demo_env_def
          py_strip_def py_isspace_def)
  from synthesis_failure_returns_factual_answer[OF h] l f
  have "fst (synthesize_response offline_env ''What is it?'' ''facts'') = ''facts''"
    and "fst (dispatch offline_env demo_files ''What is it?'' demo_directory
                [JStr ''doc_chapter_1''] (JStr ''What is the device?''))
           = Inr (JStr ''facts'')"
    by blast+
  with h show ?thesis by blast
qed

section \<open>Loading a document\<close>

lemma parse_notes:
  "parse_markdown_document (demo_env JNull) demo_files ''notes.md'' = (demo_files, [], 0)"
  by (simp add: parse_markdown_document_def demo_files_def parse_content_def re_split_def
        h2_grouping_def Let_def py_strip_def py_isspace_def nl_def)

text \<open>
  C10. When parsing the document yields no chunk, \<open>load_document\<close> returns \<open>False\<close>,
  the stored directory is what it was, and the directory file has been neither read
  nor written. When parsing yields a chunk, the directory file is read, and where the
  call returns \<open>True\<close> it has been written: with the loaded directory updated by the
  new entries, if the file can be written.
\<close>

theorem load_document_zero_chunks:
  assumes "parse_markdown_document e (files w) file_path = (fs', new_entries, chunk_count)"
      and "load_document e w file_path = (res, w', acc)"
  shows "(chunk_count = 0 \<longrightarrow> res = Inr False \<and> dir_file w' = dir_file w \<and> acc = [])
       \<and> (chunk_count \<noteq> 0 \<longrightarrow> DirRead \<in> set acc
            \<and> (res = Inr True \<longrightarrow> DirWrite \<in> set acc
                 \<and> (dir_writable e \<longrightarrow>
                      (\<exists>d. load_directory w = Inr d
                           \<and> dir_file w' = DirStored (dict_update d new_entries)))))"
  using assms
  by (auto simp: load_document_def Let_def load_directory_def save_directory_def
           split: sum.splits dir_file_state.splits if_splits)

lemma parse_doc:
  "snd (parse_markdown_document (demo_env JNull) demo_files ''doc.md'') = (demo_directory, 2)"
  by (simp add: parse_markdown_document_def demo_files_def parse_content_def re_split_def
        h2_grouping_def Let_def py_strip_def py_isspace_def nl_def demo_env_def file_prefix_of_def
        py_replace_def save_chunk_def write_file_def chapter_id_def chunk_path_def CHUNKS_DIR_def
        first_line_def rest_lines_def digit_char_def demo_directory_def)

theorem load_document_zero_chunks_witness:
  "parse_markdown_document (demo_env JNull) (files demo_world) ''notes.md'' = (demo_files, [], 0)
   \<and> fst (load_document (demo_env JNull) demo_world ''notes.md'') = Inr False
   \<and> dir_file (fst (snd (load_document (demo_env JNull) demo_world ''notes.md'')))
       = DirStored demo_directory
   \<and> snd (snd (load_document (demo_env JNull) demo_world ''notes.md'')) = []
   \<and> snd (parse_markdown_document (demo_env JNull) (files (demo_world\<lparr>dir_file := DirAbsent\<rparr>))
            ''doc.md'') = (demo_directory, 2)
   \<and> fst (load_document (demo_env JNull) (demo_world\<lparr>dir_file := DirAbsent\<rparr>) ''doc.md'')
       = Inr True
   \<and> dir_writable (demo_env JNull)
   \<and> dir_file (fst (snd (load_document (demo_env JNull) (demo_world\<lparr>dir_file := DirAbsent\<rparr>)
                            ''doc.md'')))
       = DirStored demo_directory"
proof -
  let ?e = "demo_env JNull"
  have p: "parse_markdown_document ?e (files demo_world) ''notes.md'' = (demo_files, [], 0)"
    by (simp add: demo_world_def parse_notes)
  obtain res w' acc where l: "load_document ?e demo_world ''notes.md'' = (res, w', acc)"
    by (cases "load_document ?e demo_world ''notes.md''")
  from load_document_zero_chunks[OF p l]
  have z: "res = Inr False \<and> dir_file w' = dir_file demo_world \<and> acc = []" by simp
  let ?w = "demo_world\<lparr>dir_file := DirAbsent\<rparr>"
  have q0: "snd (parse_markdown_document ?e (files ?w) ''doc.md'') = (demo_directory, 2)"
    by (simp add: demo_world_def parse_doc)
  then obtain fs' where q: "parse_markdown_document ?e (files ?w) ''doc.md''
      = (fs', demo_directory, 2)"
    by (cases "parse_markdown_document ?e (files ?w) ''doc.md''") auto
  obtain res2 w2 acc2 where l2: "load_document ?e ?w ''doc.md'' = (res2, w2, acc2)"
    by (cases "load_document ?e ?w ''doc.md''")
  have r2: "res2 = Inr True"
    using l2 q by (simp add: load_document_def load_directory_def Let_def)
  have dw: "dir_writable ?e" by (simp add: demo_env_def)
  have ld: "load_directory ?w = Inr []" by (simp add: load_directory_def)
  from load_document_zero_chunks[OF q l2] r2 dw ld
  have "dir_file w2 = DirStored (dict_update [] demo_directory)" by auto
  also have "dict_update [] demo_directory = demo_directory"
    by (simp add: dict_update_def demo_directory_def)
  finally have s: "dir_file w2 = DirStored demo_directory" .
  from p l z q0 l2 r2 dw s show ?thesis by (simp add: demo_world_def)
qed

section \<open>Directory merge\<close>

text \<open>
  C8. \<open>directory.update(new_entries)\<close>, the merge of \<open>load_document\<close> and of
  \<open>build_knowledge_directory\<close>, is the key-wise union of the base directory and the
  incoming entries (a dictionary, so its keys are distinct): every incoming entry is
  the one found under its id afterwards, also where the base had that id, so the
  source merged last wins; and two directories with disjoint ids merge to the same
  mapping in either order. This merge is what \<open>load_document\<close> stores when a parse
  has produced chunks, and what each step of the loop of \<open>build_knowledge_directory\<close>
  carries on with.
\<close>

theorem merge_union_incoming_wins:
  assumes "distinct (dict_keys incoming)"
  shows "map_of (dict_update base incoming) = map_of base ++ map_of incoming
       \<and> set (dict_keys (dict_update base incoming))
           = set (dict_keys base) \<union> set (dict_keys incoming)
       \<and> (\<forall>k v. map_of incoming k = Some v \<longrightarrow> map_of (dict_update base incoming) k = Some v)
       \<and> (distinct (dict_keys base) \<and> set (dict_keys base) \<inter> set (dict_keys incoming) = {}
            \<longrightarrow> map_of (dict_update base incoming) = map_of (dict_update incoming base))
       \<and> (\<forall>e w file_path fs' chunk_count.
             parse_markdown_document e (files w) file_path = (fs', incoming, chunk_count)
             \<and> chunk_count \<noteq> 0 \<and> load_directory w = Inr base \<and> dir_writable e
             \<longrightarrow> dir_file (fst (snd (load_document e w file_path)))
                   = DirStored (dict_update base incoming))
       \<and> (\<forall>e fs file_path rest n fs' chunk_count.
             fs file_path \<noteq> Missing
             \<and> parse_markdown_document e fs file_path = (fs', incoming, chunk_count)
             \<and> chunk_count > 0
             \<longrightarrow> build_loop e (file_path # rest) (fs, base, n)
                   = build_loop e rest (fs', dict_update base incoming, n + chunk_count))"
proof -
  have 1: "map_of (dict_update base incoming) = map_of base ++ map_of incoming"
    using assms by (rule map_of_dict_update)
  have 2: "set (dict_keys (dict_update base incoming))
             = set (dict_keys base) \<union> set (dict_keys incoming)"
    by (rule keys_dict_update)
  have 3: "\<forall>k v. map_of incoming k = Some v \<longrightarrow> map_of (dict_update base incoming) k = Some v"
    by (simp add: 1)
  have 4: "map_of (dict_update base incoming) = map_of (dict_update incoming base)"
    if db: "distinct (dict_keys base)"
      and dj: "set (dict_keys base) \<inter> set (dict_keys incoming) = {}"
  proof -
    have "dom (map_of base) \<inter> dom (map_of incoming) = {}"
      using dj by (simp add: dom_map_of_conv_image_fst dict_keys_def)
    then have "map_of base ++ map_of incoming = map_of incoming ++ map_of base"
      by (rule map_add_comm)
    then show ?thesis
      by (simp add: 1 map_of_dict_update[OF db])
  qed
  have 5: "\<forall>e w file_path fs' chunk_count.
             parse_markdown_document e (files w) file_path = (fs', incoming, chunk_count)
             \<and> chunk_count \<noteq> 0 \<and> load_directory w = Inr base \<and> dir_writable e
             \<longrightarrow> dir_file (fst (snd (load_document e w file_path)))
                   = DirStored (dict_update base incoming)"
    by (auto simp: load_document_def load_directory_def save_directory_def Let_def
             split: dir_file_state.splits)
  have 6: "\<forall>e fs file_path rest n fs' chunk_count.
             fs file_path \<noteq> Missing
             \<and> parse_markdown_document e fs file_path = (fs', incoming, chunk_count)
             \<and> chunk_count > 0
             \<longrightarrow> build_loop e (file_path # rest) (fs, base, n)
                   = build_loop e rest (fs', dict_update base incoming, n + chunk_count)"
    by simp
  from 1 2 3 4 5 6 show ?thesis by blast
qed

theorem merge_union_incoming_wins_witness:
  "distinct (dict_keys revised_entries)
   \<and> map_of revised_entries ''doc_chapter_2''
       = Some \<lparr>description = ''Specifications'', chunk_file = ''chunks/doc_chapter_2.txt''\<rparr>
   \<and> map_of (dict_update demo_directory revised_entries) ''doc_chapter_2''
       = Some \<lparr>description = ''Specifications'', chunk_file = ''chunks/doc_chapter_2.txt''\<rparr>
   \<and> distinct (dict_keys demo_directory) \<and> distinct (dict_keys other_entries)
   \<and> set (dict_keys demo_directory) \<inter> set (dict_keys other_entries) = {}
   \<and> map_of (dict_update demo_directory other_entries)
       = map_of (dict_update other_entries demo_directory)
   \<and> snd (parse_markdown_document (demo_env JNull) demo_files ''doc.md'') = (demo_directory, 2)
   \<and> dir_file (fst (snd (load_document (demo_env JNull)
                            (demo_world\<lparr>dir_file := DirStored other_entries\<rparr>) ''doc.md'')))
       = DirStored (dict_update other_entries demo_directory)
   \<and> fst (snd (build_loop (demo_env JNull) [''doc.md''] (demo_files, other_entries, 0)))
       = dict_update other_entries demo_directory"
proof -
  let ?e = "demo_env JNull"
  let ?w = "demo_world\<lparr>dir_file := DirStored other_entries\<rparr>"
  have d1: "distinct (dict_keys revised_entries)"
    by (simp add: revised_entries_def dict_keys_def)
  have d2: "distinct (dict_keys other_entries)"
    by (simp add: other_entries_def dict_keys_def)
  have d3: "distinct (dict_keys demo_directory)"
    by (simp add: demo_directory_def dict_keys_def)
  have dj: "set (dict_keys demo_directory) \<inter> set (dict_keys other_entries) = {}"
    by (simp add: demo_directory_def other_entries_def dict_keys_def)
  have m: "map_of revised_entries ''doc_chapter_2''
       = Some \<lparr>description = ''Specifications'', chunk_file = ''chunks/doc_chapter_2.txt''\<rparr>"
    by (simp add: revised_entries_def)
  from merge_union_incoming_wins[OF d1, of demo_directory] m
  have a: "map_of (dict_update demo_directory revised_entries) ''doc_chapter_2''
       = Some \<lparr>description = ''Specifications'', chunk_file = ''chunks/doc_chapter_2.txt''\<rparr>"
    by blast
  from merge_union_incoming_wins[OF d2, of demo_directory] d3 dj
  have b: "map_of (dict_update demo_directory other_entries)
       = map_of (dict_update other_entries demo_directory)"
    by blast
  obtain fs' where p: "parse_markdown_document ?e demo_files ''doc.md''
      = (fs', demo_directory, 2)"
    using parse_doc by (cases "parse_markdown_document ?e demo_files ''doc.md''") auto
  then have p': "parse_markdown_document ?e (files ?w) ''doc.md'' = (fs', demo_directory, 2)"
    by (simp add: demo_world_def)
  have l: "load_directory ?w = Inr other_entries" by (simp add: load_directory_def)
  have dw: "dir_writable ?e" by (simp add: demo_env_def)
  have nm: "demo_files ''doc.md'' \<noteq> Missing" by (simp add: demo_files_def)
  note t = merge_union_incoming_wins[OF d3, of other_entries]
  from t p' l dw
  have c: "dir_file (fst (snd (load_document ?e ?w ''doc.md'')))
       = DirStored (dict_update other_entries demo_directory)"
    by (metis zero_neq_numeral)
  from t nm p
  have "build_loop ?e [''doc.md''] (demo_files, other_entries, 0)
       = build_loop ?e [] (fs', dict_update other_entries demo_directory, 0 + 2)"
    by (metis zero_less_numeral)
  then have d: "fst (snd (build_loop ?e [''doc.md''] (demo_files, other_entries, 0)))
       = dict_update other_entries demo_directory"
    by simp
  from d1 d2 d3 dj m a b parse_doc c d show ?thesis by blast
qed

section \<open>Routing\<close>

lemma query_agent_a_demo: "query_agent_a (demo_env decision) user_query directory = decision"
  by (simp add: query_agent_a_def demo_env_def Let_def py_strip_def py_isspace_def
        re_search_braces_def)

lemma missing_scopes_of_ids:
  "missing_scopes_of directory (map JStr ids)
     = Inr (map JStr (filter (\<lambda>s. s \<notin> set (dict_keys directory)) ids))"
  by (induction ids) (simp_all add: key_in_def)

lemma route_decision_delegation:
  assumes "''error'' \<notin> set (dict_keys kvs)"
      and "py_truthy (dict_get kvs ''needs_reference'' (JBool False))"
      and "dict_get kvs ''scope'' JNull = JArr (map JStr ids)
           \<or> (\<exists>s. ids = [s] \<and> dict_get kvs ''scope'' JNull = JStr s)"
  shows "route_decision e fs user_query directory (JObj kvs) =
           (let missing_scopes = map JStr (filter (\<lambda>s. s \<notin> set (dict_keys directory)) ids)
            in if missing_scopes \<noteq> [] then (Inr (JStr (missing_reply e missing_scopes)), [])
               else dispatch e fs user_query directory (map JStr ids)
                      (dict_get kvs ''sub_query'' JNull))"
  using assms
  by (auto simp: route_decision_def error_in_def Let_def missing_scopes_of_ids
                 missing_scopes_of_ids[of _ "[s]" for s, simplified])

text \<open>
  C4. A delegation whose scope (a list of ids, or one id) names an id that is not in
  the directory is answered with the message that lists exactly the ids of the scope
  that are missing, in the order of the scope; the only call to a provider is the one
  that asked Agent A for the decision, so no reference agent is called.
\<close>

theorem unknown_scope_rejected:
  assumes "query_agent_a e user_query directory = JObj kvs"
      and "''error'' \<notin> set (dict_keys kvs)"
      and "py_truthy (dict_get kvs ''needs_reference'' (JBool False))"
      and "dict_get kvs ''scope'' JNull = JArr (map JStr ids)
           \<or> (\<exists>s. ids = [s] \<and> dict_get kvs ''scope'' JNull = JStr s)"
      and "\<exists>s \<in> set ids. s \<notin> set (dict_keys directory)"
  shows "process_user_query e fs user_query directory =
           (Inr (JStr (missing_reply e
                   (map JStr (filter (\<lambda>s. s \<notin> set (dict_keys directory)) ids)))),
            [AgentA (create_agent_a_prompt user_query (create_directory_summary e directory))])"
proof -
  from assms(5) have "filter (\<lambda>s. s \<notin> set (dict_keys directory)) ids \<noteq> []"
    by (auto simp: filter_empty_conv)
  with route_decision_delegation[OF assms(2,3,4), of e fs user_query directory] assms(1)
  show ?thesis
    by (simp add: process_user_query_def Let_def)
qed

theorem unknown_scope_rejected_witness:
  "fst (process_user_query (demo_env unknown_scope_decision) demo_files ''What are the specs?''
          demo_directory)
     = Inr (JStr (''I wanted to check my reference material for [''
                   @ sq @ ''doc_chapter_9'' @ sq
                   @ ''], but those sections don'' @ sq @ ''t exist in my knowledge base.''))
   \<and> snd (process_user_query (demo_env unknown_scope_decision) demo_files
             ''What are the specs?'' demo_directory)
       = [AgentA (create_agent_a_prompt ''What are the specs?''
                    (create_directory_summary (demo_env unknown_scope_decision) demo_directory))]"
proof -
  let ?kvs = "[(''needs_reference'', JBool True), (''scope'', JArr [JStr ''doc_chapter_9'']),
           (''sub_query'', JStr ''What are the specs?''), (''reason'', JStr ''specs'')]"
  have 1: "query_agent_a (demo_env unknown_scope_decision) ''What are the specs?'' demo_directory
             = JObj ?kvs"
    by (simp add: query_agent_a_demo unknown_scope_decision_def)
  have 2: "''error'' \<notin> set (dict_keys ?kvs)" by (simp add: dict_keys_def)
  have 3: "py_truthy (dict_get ?kvs ''needs_reference'' (JBool False))"
    by (simp add: py_truthy_def dict_get_def)
  have 4: "dict_get ?kvs ''scope'' JNull = JArr (map JStr [''doc_chapter_9''])
           \<or> (\<exists>s. [''doc_chapter_9''] = [s] \<and> dict_get ?kvs ''scope'' JNull = JStr s)"
    by (simp add: dict_get_def)
  have 5: "\<exists>s \<in> set [''doc_chapter_9'']. s \<notin> set (dict_keys demo_directory)"
    by (simp add: dict_keys_def demo_directory_def)
  from unknown_scope_rejected[OF 1 2 3 4 5, of demo_files]
  show ?thesis
    by (simp add: dict_keys_def demo_directory_def missing_reply_def repr_list_def demo_env_def
          demo_repr_def)
qed

section \<open>Multi-chunk dispatch\<close>

lemma combine_loop_no_failure:
  assumes "\<forall>cf \<in> set chunk_files. \<forall>msg. fs cf \<noteq> Unreadable msg"
  shows "combine_loop fs directory (enumerate n chunk_files) acc
           = Inr (acc @ concat (map (section_text fs directory) (enumerate n chunk_files)))"
  using assms
proof (induction chunk_files arbitrary: n acc)
  case Nil
  then show ?case by simp
next
  case (Cons cf rest)
  then show ?case
    by (cases "fs cf") (simp_all add: section_text_def)
qed

text \<open>
  C6, as the code has it. When no chunk file of the dispatch fails to be read for a
  reason other than being absent, \<open>query_agent_r_multiple\<close> makes its one request to
  the reference agent, and the combined context holds, for every chunk file in order,
  either its header and text or, where the file does not exist, the error marker
  naming the file: a missing chunk does not end the dispatch.
\<close>

theorem missing_chunk_replaced_by_marker:
  assumes "\<forall>cf \<in> set chunk_files. \<forall>msg. fs cf \<noteq> Unreadable msg"
  shows "snd (query_agent_r_multiple e fs chunk_files sub_query directory)
           = [AgentR (create_multi_agent_r_prompt
                        (concat (map (section_text fs directory) (enumerate 1 chunk_files)))
                        (format_value e sub_query))]
       \<and> (\<forall>i cf. (i, cf) \<in> set (enumerate 1 chunk_files) \<and> fs cf = Missing
             \<longrightarrow> section_text fs directory (i, cf) = load_error_marker cf)"
  using assms
  by (auto simp: query_agent_r_multiple_def combine_loop_no_failure Let_def section_text_def
           split: sum.splits)

text \<open>
  C6 as stated speaks of any chunk that cannot be read. Only \<open>FileNotFoundError\<close> is
  caught inside the loop: a chunk file that exists and cannot be read (here, permission
  denied) ends the whole dispatch with an error text, and the reference agent is not
  called, although the other chunk is readable.
\<close>

theorem unreadable_chunk_aborts_dispatch:
  "locked_files ''chunks/doc_chapter_1.txt'' = Unreadable ''[Errno 13] Permission denied''
   \<and> locked_files ''chunks/doc_chapter_2.txt'' = Content ''# Specs''
   \<and> query_agent_r_multiple (demo_env JNull) locked_files
        [''chunks/doc_chapter_2.txt'', ''chunks/doc_chapter_1.txt''] (JStr ''Compare them.'')
        demo_directory
       = (''Error querying Agent R_i with multiple chunks: [Errno 13] Permission denied'', [])"
  by (simp add: query_agent_r_multiple_def locked_files_def demo_files_def)

theorem missing_chunk_replaced_by_marker_witness:
  "lost_files ''chunks/doc_chapter_1.txt'' = Missing
   \<and> snd (query_agent_r_multiple (demo_env JNull) lost_files
        [''chunks/doc_chapter_2.txt'', ''chunks/doc_chapter_1.txt''] (JStr ''Compare them.'')
        demo_directory)
       = [AgentR (create_multi_agent_r_prompt
                    ([nl] @ ''--- REFERENCE SECTION 1: Specs ---'' @ [nl] @ ''# Specs'' @ [nl]
                     @ [nl] @ ''--- ERROR: Could not load chunks/doc_chapter_1.txt ---'' @ [nl])
                    ''Compare them.'')]"
proof -
  let ?cfs = "[''chunks/doc_chapter_2.txt'', ''chunks/doc_chapter_1.txt'']"
  have h: "\<forall>cf \<in> set ?cfs. \<forall>msg. lost_files cf \<noteq> Unreadable msg"
    by (simp add: lost_files_def demo_files_def)
  have m: "lost_files ''chunks/doc_chapter_1.txt'' = Missing"
    by (simp add: lost_files_def)
  have c: "concat (map (section_text lost_files demo_directory) (enumerate 1 ?cfs))
      = [nl] @ ''--- REFERENCE SECTION 1: Specs ---'' @ [nl] @ ''# Specs'' @ [nl]
        @ [nl] @ ''--- ERROR: Could not load chunks/doc_chapter_1.txt ---'' @ [nl]"
    by (simp add: section_text_def lost_files_def demo_files_def section_header_def
          section_desc_of_def demo_directory_def load_error_marker_def
          str_of_nat.simps[of 1] digit_char_def)
  have f: "format_value (demo_env JNull) (JStr ''Compare them.'') = ''Compare them.''"
    by (simp add: format_value_def)
  from missing_chunk_replaced_by_marker[OF h, of "demo_env JNull" "JStr ''Compare them.''"
         demo_directory, THEN conjunct1]
  show ?thesis unfolding c f using m by simp
qed

section \<open>Order of the combined context\<close>

lemma section_desc_of_unique:
  assumes "(k, d) \<in> set directory" and "distinct (map (chunk_file \<circ> snd) directory)"
  shows "section_desc_of directory (chunk_file d) = description d"
proof -
  have "find (\<lambda>(section_id, details). chunk_file details = chunk_file d) directory = Some (k, d)"
    using assms
  proof (induction directory)
    case Nil
    then show ?case by simp
  next
    case (Cons x xs)
    show ?case
    proof (cases "x = (k, d)")
      case True
      then show ?thesis by simp
    next
      case False
      with Cons.prems have in_xs: "(k, d) \<in> set xs" by simp
      then have "(chunk_file \<circ> snd) (k, d) \<in> (chunk_file \<circ> snd) ` set xs"
        by (rule imageI)
      moreover from Cons.prems(2) have "(chunk_file \<circ> snd) x \<notin> (chunk_file \<circ> snd) ` set xs"
        by simp
      ultimately have "chunk_file (snd x) \<noteq> chunk_file d" by force
      with Cons.IH[OF in_xs] Cons.prems(2) show ?thesis
        by (cases x) simp
    qed
  qed
  then show ?thesis by (simp add: section_desc_of_def)
qed

lemma dir_lookup_all_ids:
  "map (map_of directory) ids = map Some details \<Longrightarrow>
   dir_lookup_all directory (map JStr ids) = Inr details"
proof (induction ids arbitrary: details)
  case Nil
  then show ?case by simp
next
  case (Cons s ids)
  then obtain d ds where "details = d # ds" "map_of directory s = Some d"
    "map (map_of directory) ids = map Some ds"
    by (cases details) auto
  with Cons.IH[of ds] show ?case by (simp add: dir_lookup_def)
qed

lemma combine_loop_sections:
  assumes "\<forall>d \<in> set details. \<exists>k. (k, d) \<in> set directory"
      and "distinct (map (chunk_file \<circ> snd) directory)"
      and "map (\<lambda>d. fs (chunk_file d)) details = map Content bodies"
  shows "combine_loop fs directory (enumerate n (map chunk_file details)) acc
           = Inr (acc @ concat (map reference_section (enumerate n (zip details bodies))))"
  using assms(1,3)
proof (induction details arbitrary: bodies n acc)
  case Nil
  then show ?case by simp
next
  case (Cons d ds)
  from Cons.prems(2) obtain b bs where bodies: "bodies = b # bs"
    and b: "fs (chunk_file d) = Content b"
    and bs: "map (\<lambda>d. fs (chunk_file d)) ds = map Content bs"
    by (cases bodies) auto
  from Cons.prems(1) obtain k where "(k, d) \<in> set directory" by auto
  then have desc: "section_desc_of directory (chunk_file d) = description d"
    using assms(2) by (rule section_desc_of_unique)
  from Cons.prems(1) have rest: "\<forall>d \<in> set ds. \<exists>k. (k, d) \<in> set directory" by simp
  show ?case
    by (simp add: bodies b desc Cons.IH[OF rest bs] reference_section_def)
qed

text \<open>
  C3. For a delegation whose scope lists more than one id, all in the directory, with
  chunk files that can be read, in a directory whose entries have different chunk
  files (as the chunker writes them: one file per section id), exactly one request goes
  to the reference agent, and its combined context is made of the sections of the
  scope in the order of the scope: for each id its header, which carries the position
  in the scope and the description of that section, followed by the text of its chunk.
  The order of the directory plays no part.
\<close>

theorem multi_dispatch_follows_scope_order:
  assumes "query_agent_a e user_query directory = JObj kvs"
      and "''error'' \<notin> set (dict_keys kvs)"
      and "py_truthy (dict_get kvs ''needs_reference'' (JBool False))"
      and "dict_get kvs ''scope'' JNull = JArr (map JStr ids)"
      and "length ids > 1"
      and "map (map_of directory) ids = map Some details"
      and "distinct (map (chunk_file \<circ> snd) directory)"
      and "map (\<lambda>d. fs (chunk_file d)) details = map Content bodies"
  shows "\<exists>synthesis.
           snd (process_user_query e fs user_query directory) =
             [AgentA (create_agent_a_prompt user_query (create_directory_summary e directory)),
              AgentR (create_multi_agent_r_prompt
                        (concat (map reference_section (enumerate 1 (zip details bodies))))
                        (format_value e (dict_get kvs ''sub_query'' JNull))),
              AgentA synthesis]"
proof -
  have present: "filter (\<lambda>s. s \<notin> set (dict_keys directory)) ids = []"
  proof -
    have "s \<in> set (dict_keys directory)" if "s \<in> set ids" for s
    proof -
      from that assms(6) have "map_of directory s \<in> set (map Some details)"
        by (metis image_eqI list.set_map)
      then have "map_of directory s \<noteq> None" by auto
      then show ?thesis
        by (simp add: dict_keys_def map_of_eq_None_iff)
    qed
    then show ?thesis by (simp add: filter_empty_conv)
  qed
  have known: "\<forall>d \<in> set details. \<exists>k. (k, d) \<in> set directory"
  proof
    fix d assume "d \<in> set details"
    then have "Some d \<in> set (map (map_of directory) ids)" by (simp add: assms(6))
    then obtain s where "map_of directory s = Some d" by auto
    then show "\<exists>k. (k, d) \<in> set directory" by (blast dest: map_of_SomeD)
  qed
  have route: "route_decision e fs user_query directory (JObj kvs)
      = dispatch e fs user_query directory (map JStr ids) (dict_get kvs ''sub_query'' JNull)"
    using assms(2,3,4) present
    by (simp add: route_decision_def error_in_def Let_def missing_scopes_of_ids)
  from assms(5) have len: "length (map JStr ids) \<noteq> 1" by simp
  show ?thesis
    using len
    by (simp add: process_user_query_def assms(1) route dispatch_def
          dir_lookup_all_ids[OF assms(6)] query_agent_r_multiple_def
          combine_loop_sections[OF known assms(7,8)] synthesize_response_def Let_def
          split: sum.splits prod.splits)
qed


theorem multi_dispatch_follows_scope_order_witness:
  "snd (process_user_query (demo_env reversed_scope_decision) demo_files ''Compare them.''
          demo_directory) ! 1
     = AgentR (create_multi_agent_r_prompt
                 ([nl] @ ''--- REFERENCE SECTION 1: Specs ---'' @ [nl] @ ''# Specs'' @ [nl]
                  @ [nl] @ ''--- REFERENCE SECTION 2: Overview ---'' @ [nl] @ ''# Overview''
                  @ [nl])
                 ''Compare them.'')"
proof -
  let ?e = "demo_env reversed_scope_decision"
  let ?kvs = "[(''needs_reference'', JBool True),
               (''scope'', JArr [JStr ''doc_chapter_2'', JStr ''doc_chapter_1'']),
               (''sub_query'', JStr ''Compare them.'')]"
  let ?ids = "[''doc_chapter_2'', ''doc_chapter_1'']"
  let ?details = "[\<lparr>description = ''Specs'', chunk_file = ''chunks/doc_chapter_2.txt''\<rparr>,
                   \<lparr>description = ''Overview'', chunk_file = ''chunks/doc_chapter_1.txt''\<rparr>]"
  let ?bodies = "[''# Specs'', ''# Overview'']"
  have 1: "query_agent_a ?e ''Compare them.'' demo_directory = JObj ?kvs"
    by (simp add: query_agent_a_demo reversed_scope_decision_def)
  have 2: "''error'' \<notin> set (dict_keys ?kvs)" by (simp add: dict_keys_def)
  have 3: "py_truthy (dict_get ?kvs ''needs_reference'' (JBool False))"
    by (simp add: py_truthy_def dict_get_def)
  have 4: "dict_get ?kvs ''scope'' JNull = JArr (map JStr ?ids)"
    by (simp add: dict_get_def)
  have 5: "length ?ids > 1" by simp
  have 6: "map (map_of demo_directory) ?ids = map Some ?details"
    by (simp add: demo_directory_def)
  have 7: "distinct (map (chunk_file \<circ> snd) demo_directory)"
    by (simp add: demo_directory_def)
  have 8: "map (\<lambda>d. demo_files (chunk_file d)) ?details = map Content ?bodies"
    by (simp add: demo_files_def)
  have c: "concat (map reference_section (enumerate 1 (zip ?details ?bodies)))
      = [nl] @ ''--- REFERENCE SECTION 1: Specs ---'' @ [nl] @ ''# Specs'' @ [nl]
        @ [nl] @ ''--- REFERENCE SECTION 2: Overview ---'' @ [nl] @ ''# Overview'' @ [nl]"
    by (simp add: reference_section_def section_header_def str_of_nat.simps[of 1]
          str_of_nat.simps[of "Suc 1"] digit_char_def)
  have f: "format_value ?e (dict_get ?kvs ''sub_query'' JNull) = ''Compare them.''"
    by (simp add: format_value_def dict_get_def)
  from multi_dispatch_follows_scope_order[OF 1 2 3 4 5 6 7 8]
  obtain synthesis where
    "snd (process_user_query ?e demo_files ''Compare them.'' demo_directory) =
       [AgentA (create_agent_a_prompt ''Compare them.'' (create_directory_summary ?e demo_directory)),
        AgentR (create_multi_agent_r_prompt
                  (concat (map reference_section (enumerate 1 (zip ?details ?bodies))))
                  (format_value ?e (dict_get ?kvs ''sub_query'' JNull))),
        AgentA synthesis]"
    by blast
  then show ?thesis unfolding c f by simp
qed

section \<open>Validation of the decision\<close>

lemma process_user_query_result:
  "fst (process_user_query e fs user_query directory)
     = fst (route_decision e fs user_query directory (query_agent_a e user_query directory))"
  by (simp add: process_user_query_def Let_def case_prod_beta)

lemma process_user_query_calls:
  "snd (process_user_query e fs user_query directory)
     = AgentA (create_agent_a_prompt user_query (create_directory_summary e directory))
       # snd (route_decision e fs user_query directory (query_agent_a e user_query directory))"
  by (simp add: process_user_query_def Let_def case_prod_beta)

lemma found_ids_present:
  assumes "map (map_of directory) ids = map Some details"
  shows "set ids \<subseteq> set (dict_keys directory)"
proof
  fix s assume "s \<in> set ids"
  with assms have "map_of directory s \<in> set (map Some details)"
    by (metis image_eqI list.set_map)
  then have "map_of directory s \<noteq> None" by auto
  then show "s \<in> set (dict_keys directory)"
    by (simp add: dict_keys_def map_of_eq_None_iff)
qed

lemma route_to_dispatch:
  assumes "''error'' \<notin> set (dict_keys kvs)"
      and "py_truthy (dict_get kvs ''needs_reference'' (JBool False))"
      and "dict_get kvs ''scope'' JNull = JArr (map JStr ids)
           \<or> (\<exists>s. ids = [s] \<and> dict_get kvs ''scope'' JNull = JStr s)"
      and "set ids \<subseteq> set (dict_keys directory)"
  shows "route_decision e fs user_query directory (JObj kvs)
           = dispatch e fs user_query directory (map JStr ids)
               (dict_get kvs ''sub_query'' JNull)"
proof -
  from assms(4) have "filter (\<lambda>s. s \<notin> set (dict_keys directory)) ids = []"
    by (auto simp: filter_empty_conv)
  with route_decision_delegation[OF assms(1,2,3), of e fs user_query directory]
  show ?thesis by simp
qed

lemma dispatch_calls_single:
  assumes "map_of directory s = Some details"
      and "fs (chunk_file details) = Content chunk_text"
  shows "AgentR (create_agent_r_prompt chunk_text (format_value e sub_query))
           \<in> set (snd (dispatch e fs user_query directory [JStr s] sub_query))"
proof -
  let ?single = "query_agent_r_single e fs (chunk_file details) sub_query"
  from assms(1) have lk: "dir_lookup_all directory [JStr s] = Inr [details]"
    by (simp add: dir_lookup_def)
  have disp: "snd (dispatch e fs user_query directory [JStr s] sub_query)
      = snd ?single @ snd (synthesize_response e user_query (fst ?single))"
    unfolding dispatch_def lk by (simp split: prod.splits)
  from assms(2) have "snd ?single
      = [AgentR (create_agent_r_prompt chunk_text (format_value e sub_query))]"
    by (simp add: query_agent_r_single_def Let_def split: sum.splits)
  with disp show ?thesis by simp
qed

lemma dispatch_calls_multiple:
  assumes "map (map_of directory) ids = map Some details"
      and "length ids \<noteq> 1"
      and "\<forall>d \<in> set details. \<forall>msg. fs (chunk_file d) \<noteq> Unreadable msg"
  shows "AgentR (create_multi_agent_r_prompt
                   (concat (map (section_text fs directory)
                              (enumerate 1 (map chunk_file details))))
                   (format_value e sub_query))
           \<in> set (snd (dispatch e fs user_query directory (map JStr ids) sub_query))"
proof -
  let ?multi = "query_agent_r_multiple e fs (map chunk_file details) sub_query directory"
  from assms(2) have len: "length (map JStr ids) \<noteq> 1" by simp
  have disp: "snd (dispatch e fs user_query directory (map JStr ids) sub_query)
      = snd ?multi @ snd (synthesize_response e user_query (fst ?multi))"
    unfolding dispatch_def dir_lookup_all_ids[OF assms(1)] using len
    by (simp split: prod.splits)
  from assms(3) have "\<forall>cf \<in> set (map chunk_file details). \<forall>msg. fs cf \<noteq> Unreadable msg"
    by simp
  then have "snd ?multi
      = [AgentR (create_multi_agent_r_prompt
                   (concat (map (section_text fs directory)
                              (enumerate 1 (map chunk_file details))))
                   (format_value e sub_query))]"
    by (simp add: query_agent_r_multiple_def combine_loop_no_failure Let_def split: sum.splits)
  with disp show ?thesis by simp
qed

text \<open>
  C5, as the code has it. For a decision that is an object without an \<open>error\<close> key:
  when the flag \<open>needs_reference\<close> is missing or not truthy, the query is answered
  directly with the \<open>answer\<close> field, or with a fixed text when there is none, and no
  further call is made. When the flag is truthy and the scope, a list of ids or one
  id given as a string, names ids of the directory, the query goes to the dispatch
  with \<open>sub_query\<close> as the decision has it, or \<open>None\<close> when it has none: nothing checks
  that it is a string, that it is non-empty, or that it is there. The reference agent
  is then asked with that \<open>sub_query\<close> inserted in the prompt: for one id whose chunk
  can be read, with the text of the chunk; for another number of ids, none of whose
  chunks fails to be read for a reason other than being absent, with the combined
  context.
\<close>

theorem decision_validation_as_coded:
  assumes "query_agent_a e user_query directory = JObj kvs"
      and "''error'' \<notin> set (dict_keys kvs)"
  shows "(\<not> py_truthy (dict_get kvs ''needs_reference'' (JBool False)) \<longrightarrow>
            process_user_query e fs user_query directory =
              (Inr (dict_get kvs ''answer'' (JStr no_answer_reply)),
               [AgentA (create_agent_a_prompt user_query
                          (create_directory_summary e directory))]))
       \<and> (\<forall>ids.
             py_truthy (dict_get kvs ''needs_reference'' (JBool False))
             \<and> (dict_get kvs ''scope'' JNull = JArr (map JStr ids)
                  \<or> (\<exists>s. ids = [s] \<and> dict_get kvs ''scope'' JNull = JStr s))
             \<and> set ids \<subseteq> set (dict_keys directory)
             \<longrightarrow> process_user_query e fs user_query directory =
                   (fst (dispatch e fs user_query directory (map JStr ids)
                           (dict_get kvs ''sub_query'' JNull)),
                    AgentA (create_agent_a_prompt user_query
                              (create_directory_summary e directory))
                    # snd (dispatch e fs user_query directory (map JStr ids)
                             (dict_get kvs ''sub_query'' JNull))))
       \<and> (\<forall>s details chunk_text.
             py_truthy (dict_get kvs ''needs_reference'' (JBool False))
             \<and> (dict_get kvs ''scope'' JNull = JArr [JStr s]
                  \<or> dict_get kvs ''scope'' JNull = JStr s)
             \<and> map_of directory s = Some details
             \<and> fs (chunk_file details) = Content chunk_text
             \<longrightarrow> AgentR (create_agent_r_prompt chunk_text
                          (format_value e (dict_get kvs ''sub_query'' JNull)))
                   \<in> set (snd (process_user_query e fs user_query directory)))
       \<and> (\<forall>ids details.
             py_truthy (dict_get kvs ''needs_reference'' (JBool False))
             \<and> dict_get kvs ''scope'' JNull = JArr (map JStr ids)
             \<and> length ids \<noteq> 1
             \<and> map (map_of directory) ids = map Some details
             \<and> (\<forall>d \<in> set details. \<forall>msg. fs (chunk_file d) \<noteq> Unreadable msg)
             \<longrightarrow> AgentR (create_multi_agent_r_prompt
                          (concat (map (section_text fs directory)
                                     (enumerate 1 (map chunk_file details))))
                          (format_value e (dict_get kvs ''sub_query'' JNull)))
                   \<in> set (snd (process_user_query e fs user_query directory)))"
proof (intro conjI allI impI)
  assume "\<not> py_truthy (dict_get kvs ''needs_reference'' (JBool False))"
  with assms show "process_user_query e fs user_query directory =
              (Inr (dict_get kvs ''answer'' (JStr no_answer_reply)),
               [AgentA (create_agent_a_prompt user_query
                          (create_directory_summary e directory))])"
    by (simp add: process_user_query_def route_decision_def error_in_def Let_def)
next
  fix ids
  assume h: "py_truthy (dict_get kvs ''needs_reference'' (JBool False))
             \<and> (dict_get kvs ''scope'' JNull = JArr (map JStr ids)
                  \<or> (\<exists>s. ids = [s] \<and> dict_get kvs ''scope'' JNull = JStr s))
             \<and> set ids \<subseteq> set (dict_keys directory)"
  then have "route_decision e fs user_query directory (JObj kvs)
      = dispatch e fs user_query directory (map JStr ids) (dict_get kvs ''sub_query'' JNull)"
    using route_to_dispatch[OF assms(2)] by blast
  then show "process_user_query e fs user_query directory =
                   (fst (dispatch e fs user_query directory (map JStr ids)
                           (dict_get kvs ''sub_query'' JNull)),
                    AgentA (create_agent_a_prompt user_query
                              (create_directory_summary e directory))
                    # snd (dispatch e fs user_query directory (map JStr ids)
                             (dict_get kvs ''sub_query'' JNull)))"
    by (simp add: process_user_query_def assms(1) Let_def case_prod_beta)
next
  fix s details chunk_text
  assume h: "py_truthy (dict_get kvs ''needs_reference'' (JBool False))
             \<and> (dict_get kvs ''scope'' JNull = JArr [JStr s]
                  \<or> dict_get kvs ''scope'' JNull = JStr s)
             \<and> map_of directory s = Some details
             \<and> fs (chunk_file details) = Content chunk_text"
  then have m: "map (map_of directory) [s] = map Some [details]" by simp
  from h have form: "dict_get kvs ''scope'' JNull = JArr (map JStr [s])
           \<or> (\<exists>s'. [s] = [s'] \<and> dict_get kvs ''scope'' JNull = JStr s')"
    by auto
  from h have flag: "py_truthy (dict_get kvs ''needs_reference'' (JBool False))" by blast
  have "route_decision e fs user_query directory (JObj kvs)
      = dispatch e fs user_query directory (map JStr [s]) (dict_get kvs ''sub_query'' JNull)"
    by (rule route_to_dispatch[OF assms(2) flag form found_ids_present[OF m]])
  moreover from h have "AgentR (create_agent_r_prompt chunk_text
                          (format_value e (dict_get kvs ''sub_query'' JNull)))
      \<in> set (snd (dispatch e fs user_query directory [JStr s]
                     (dict_get kvs ''sub_query'' JNull)))"
    by (intro dispatch_calls_single) blast+
  ultimately show "AgentR (create_agent_r_prompt chunk_text
                          (format_value e (dict_get kvs ''sub_query'' JNull)))
                   \<in> set (snd (process_user_query e fs user_query directory))"
    by (simp add: process_user_query_calls assms(1))
next
  fix ids details
  assume h: "py_truthy (dict_get kvs ''needs_reference'' (JBool False))
             \<and> dict_get kvs ''scope'' JNull = JArr (map JStr ids)
             \<and> length ids \<noteq> 1
             \<and> map (map_of directory) ids = map Some details
             \<and> (\<forall>d \<in> set details. \<forall>msg. fs (chunk_file d) \<noteq> Unreadable msg)"
  then have m: "map (map_of directory) ids = map Some details"
    and len: "length ids \<noteq> 1"
    and rd: "\<forall>d \<in> set details. \<forall>msg. fs (chunk_file d) \<noteq> Unreadable msg"
    and flag: "py_truthy (dict_get kvs ''needs_reference'' (JBool False))"
    by blast+
  from h have form: "dict_get kvs ''scope'' JNull = JArr (map JStr ids)
           \<or> (\<exists>s. ids = [s] \<and> dict_get kvs ''scope'' JNull = JStr s)"
    by blast
  have "route_decision e fs user_query directory (JObj kvs)
      = dispatch e fs user_query directory (map JStr ids) (dict_get kvs ''sub_query'' JNull)"
    by (rule route_to_dispatch[OF assms(2) flag form found_ids_present[OF m]])
  with dispatch_calls_multiple[OF m len rd]
  show "AgentR (create_multi_agent_r_prompt
                          (concat (map (section_text fs directory)
                                     (enumerate 1 (map chunk_file details))))
                          (format_value e (dict_get kvs ''sub_query'' JNull)))
                   \<in> set (snd (process_user_query e fs user_query directory))"
    by (simp add: process_user_query_calls assms(1))
qed

lemma demo_env_agents:
  "agent_r (demo_env decision) p = Inr ''facts''"
  "agent_a (demo_env decision) p = Inr ''{}''"
  by (simp_all add: demo_env_def)

text \<open>
  C5 as stated fails twice: a decision without the flag is answered directly with its
  \<open>answer\<close>, and a delegation whose \<open>sub_query\<close> is the empty string is dispatched
  to the reference agent.
\<close>

theorem unvalidated_decisions_accepted:
  "fst (process_user_query (demo_env flagless_decision) demo_files ''Hi'' demo_directory)
     = Inr (JStr ''Hello'')
   \<and> snd (process_user_query (demo_env empty_sub_query_decision) demo_files ''Tell me''
            demo_directory) ! 1
       = AgentR (create_agent_r_prompt ''# Overview'' [])"
proof -
  have "route_decision (demo_env flagless_decision) demo_files ''Hi'' demo_directory
          flagless_decision = (Inr (JStr ''Hello''), [])"
    by (simp add: route_decision_def error_in_def flagless_decision_def dict_keys_def
          dict_get_def py_truthy_def)
  then have 1: "fst (process_user_query (demo_env flagless_decision) demo_files ''Hi''
                       demo_directory) = Inr (JStr ''Hello'')"
    by (simp add: process_user_query_result query_agent_a_demo)
  have "snd (route_decision (demo_env empty_sub_query_decision) demo_files ''Tell me''
          demo_directory empty_sub_query_decision) ! 0
          = AgentR (create_agent_r_prompt ''# Overview'' [])"
    by (simp add: route_decision_def error_in_def empty_sub_query_decision_def dict_keys_def
          dict_get_def py_truthy_def Let_def key_in_def demo_directory_def dispatch_def
          dir_lookup_def query_agent_r_single_def demo_files_def format_value_def
          demo_env_agents synthesize_response_def)
  then have 2: "snd (process_user_query (demo_env empty_sub_query_decision) demo_files
                       ''Tell me'' demo_directory) ! 1
                  = AgentR (create_agent_r_prompt ''# Overview'' [])"
    by (simp add: process_user_query_calls query_agent_a_demo)
  from 1 2 show ?thesis by blast
qed

theorem decision_validation_as_coded_witness:
  "fst (process_user_query (demo_env flagless_decision) demo_files ''Hi'' demo_directory)
     = Inr (JStr ''Hello'')
   \<and> AgentR (create_agent_r_prompt ''# Overview'' [])
       \<in> set (snd (process_user_query (demo_env empty_sub_query_decision) demo_files
                     ''Tell me'' demo_directory))
   \<and> process_user_query (demo_env bare_scope_decision) demo_files ''Tell me'' demo_directory
       = (fst (dispatch (demo_env bare_scope_decision) demo_files ''Tell me'' demo_directory
                 [JStr ''doc_chapter_2''] JNull),
          AgentA (create_agent_a_prompt ''Tell me''
                    (create_directory_summary (demo_env bare_scope_decision) demo_directory))
          # snd (dispatch (demo_env bare_scope_decision) demo_files ''Tell me'' demo_directory
                   [JStr ''doc_chapter_2''] JNull))
   \<and> AgentR (create_agent_r_prompt ''# Specs'' ''None'')
       \<in> set (snd (process_user_query (demo_env bare_scope_decision) demo_files
                     ''Tell me'' demo_directory))
   \<and> AgentR (create_multi_agent_r_prompt
                ([nl] @ ''--- REFERENCE SECTION 1: Specs ---'' @ [nl] @ ''# Specs'' @ [nl]
                 @ [nl] @ ''--- REFERENCE SECTION 2: Overview ---'' @ [nl] @ ''# Overview''
                 @ [nl])
                ''Compare them.'')
       \<in> set (snd (process_user_query (demo_env reversed_scope_decision) demo_files
                     ''Compare them.'' demo_directory))"
proof -
  let ?d1 = "\<lparr>description = ''Overview'', chunk_file = ''chunks/doc_chapter_1.txt''\<rparr>"
  let ?d2 = "\<lparr>description = ''Specs'', chunk_file = ''chunks/doc_chapter_2.txt''\<rparr>"
  let ?k1 = "[(''answer'', JStr ''Hello'')]"
  have a1: "query_agent_a (demo_env flagless_decision) ''Hi'' demo_directory = JObj ?k1"
    by (simp add: query_agent_a_demo flagless_decision_def)
  have a2: "''error'' \<notin> set (dict_keys ?k1)" by (simp add: dict_keys_def)
  have a3: "\<not> py_truthy (dict_get ?k1 ''needs_reference'' (JBool False))"
    by (simp add: py_truthy_def dict_get_def)
  from decision_validation_as_coded[OF a1 a2, of demo_files, THEN conjunct1] a3
  have r1: "fst (process_user_query (demo_env flagless_decision) demo_files ''Hi''
                   demo_directory) = Inr (JStr ''Hello'')"
    by (simp add: dict_get_def)
  let ?k2 = "[(''needs_reference'', JBool True), (''scope'', JArr [JStr ''doc_chapter_1'']),
              (''sub_query'', JStr [])]"
  let ?e2 = "demo_env empty_sub_query_decision"
  have b1: "query_agent_a ?e2 ''Tell me'' demo_directory = JObj ?k2"
    by (simp add: query_agent_a_demo empty_sub_query_decision_def)
  have b2: "''error'' \<notin> set (dict_keys ?k2)" by (simp add: dict_keys_def)
  have b3: "py_truthy (dict_get ?k2 ''needs_reference'' (JBool False))
             \<and> (dict_get ?k2 ''scope'' JNull = JArr [JStr ''doc_chapter_1'']
                  \<or> dict_get ?k2 ''scope'' JNull = JStr ''doc_chapter_1'')
             \<and> map_of demo_directory ''doc_chapter_1'' = Some ?d1
             \<and> demo_files (chunk_file ?d1) = Content ''# Overview''"
    by (simp add: py_truthy_def dict_get_def demo_directory_def demo_files_def)
  have f2: "format_value ?e2 (dict_get ?k2 ''sub_query'' JNull) = []"
    by (simp add: format_value_def dict_get_def)
  from decision_validation_as_coded[OF b1 b2, of demo_files,
         THEN conjunct2, THEN conjunct2, THEN conjunct1, rule_format, OF b3]
  have r2: "AgentR (create_agent_r_prompt ''# Overview'' [])
       \<in> set (snd (process_user_query ?e2 demo_files ''Tell me'' demo_directory))"
    unfolding f2 .
  let ?k3 = "[(''needs_reference'', JBool True), (''scope'', JStr ''doc_chapter_2'')]"
  let ?e3 = "demo_env bare_scope_decision"
  have c1: "query_agent_a ?e3 ''Tell me'' demo_directory = JObj ?k3"
    by (simp add: query_agent_a_demo bare_scope_decision_def)
  have c2: "''error'' \<notin> set (dict_keys ?k3)" by (simp add: dict_keys_def)
  have c3: "py_truthy (dict_get ?k3 ''needs_reference'' (JBool False))
             \<and> (dict_get ?k3 ''scope'' JNull = JArr (map JStr [''doc_chapter_2''])
                  \<or> (\<exists>s. [''doc_chapter_2''] = [s] \<and> dict_get ?k3 ''scope'' JNull = JStr s))
             \<and> set [''doc_chapter_2''] \<subseteq> set (dict_keys demo_directory)"
    by (simp add: py_truthy_def dict_get_def demo_directory_def dict_keys_def)
  have c4: "py_truthy (dict_get ?k3 ''needs_reference'' (JBool False))
             \<and> (dict_get ?k3 ''scope'' JNull = JArr [JStr ''doc_chapter_2'']
                  \<or> dict_get ?k3 ''scope'' JNull = JStr ''doc_chapter_2'')
             \<and> map_of demo_directory ''doc_chapter_2'' = Some ?d2
             \<and> demo_files (chunk_file ?d2) = Content ''# Specs''"
    by (simp add: py_truthy_def dict_get_def demo_directory_def demo_files_def)
  have s3: "dict_get ?k3 ''sub_query'' JNull = JNull" by (simp add: dict_get_def)
  have f3: "format_value ?e3 JNull = ''None''"
    by (simp add: format_value_def demo_env_def)
  from decision_validation_as_coded[OF c1 c2, of demo_files,
         THEN conjunct2, THEN conjunct1, rule_format, OF c3]
  have r3: "process_user_query ?e3 demo_files ''Tell me'' demo_directory
       = (fst (dispatch ?e3 demo_files ''Tell me'' demo_directory [JStr ''doc_chapter_2''] JNull),
          AgentA (create_agent_a_prompt ''Tell me'' (create_directory_summary ?e3 demo_directory))
          # snd (dispatch ?e3 demo_files ''Tell me'' demo_directory [JStr ''doc_chapter_2'']
                   JNull))"
    unfolding s3 by simp
  from decision_validation_as_coded[OF c1 c2, of demo_files,
         THEN conjunct2, THEN conjunct2, THEN conjunct1, rule_format, OF c4]
  have r4: "AgentR (create_agent_r_prompt ''# Specs'' ''None'')
       \<in> set (snd (process_user_query ?e3 demo_files ''Tell me'' demo_directory))"
    unfolding s3 f3 .
  let ?k4 = "[(''needs_reference'', JBool True),
              (''scope'', JArr [JStr ''doc_chapter_2'', JStr ''doc_chapter_1'']),
              (''sub_query'', JStr ''Compare them.'')]"
  let ?e4 = "demo_env reversed_scope_decision"
  let ?ids = "[''doc_chapter_2'', ''doc_chapter_1'']"
  have d1: "query_agent_a ?e4 ''Compare them.'' demo_directory = JObj ?k4"
    by (simp add: query_agent_a_demo reversed_scope_decision_def)
  have d2: "''error'' \<notin> set (dict_keys ?k4)" by (simp add: dict_keys_def)
  have d3: "py_truthy (dict_get ?k4 ''needs_reference'' (JBool False))
             \<and> dict_get ?k4 ''scope'' JNull = JArr (map JStr ?ids)
             \<and> length ?ids \<noteq> 1
             \<and> map (map_of demo_directory) ?ids = map Some [?d2, ?d1]
             \<and> (\<forall>d \<in> set [?d2, ?d1]. \<forall>msg. demo_files (chunk_file d) \<noteq> Unreadable msg)"
    by (simp add: py_truthy_def dict_get_def demo_directory_def demo_files_def)
  have c: "concat (map (section_text demo_files demo_directory)
                     (enumerate 1 (map chunk_file [?d2, ?d1])))
      = [nl] @ ''--- REFERENCE SECTION 1: Specs ---'' @ [nl] @ ''# Specs'' @ [nl]
        @ [nl] @ ''--- REFERENCE SECTION 2: Overview ---'' @ [nl] @ ''# Overview'' @ [nl]"
    by (simp add: section_text_def demo_files_def section_header_def section_desc_of_def
          demo_directory_def str_of_nat.simps[of 1] str_of_nat.simps[of "Suc 1"]
          digit_char_def)
  have f4: "format_value ?e4 (dict_get ?k4 ''sub_query'' JNull) = ''Compare them.''"
    by (simp add: format_value_def dict_get_def)
  from decision_validation_as_coded[OF d1 d2, of demo_files,
         THEN conjunct2, THEN conjunct2, THEN conjunct2, rule_format, OF d3]
  have r5: "AgentR (create_multi_agent_r_prompt
                ([nl] @ ''--- REFERENCE SECTION 1: Specs ---'' @ [nl] @ ''# Specs'' @ [nl]
                 @ [nl] @ ''--- REFERENCE SECTION 2: Overview ---'' @ [nl] @ ''# Overview''
                 @ [nl])
                ''Compare them.'')
       \<in> set (snd (process_user_query ?e4 demo_files ''Compare them.'' demo_directory))"
    unfolding c f4 .
  from r1 r2 r3 r4 r5 show ?thesis by blast
qed

section \<open>The chunker: top-level sections\<close>

declare str_of_nat.simps [simp del]

lemma digit_char_inj:
  assumes "a < 10" "b < 10" "digit_char a = digit_char b"
  shows "a = b"
proof -
  have d: "distinct ''0123456789''" by simp
  have l: "length ''0123456789'' = 10" by simp
  from assms d l show ?thesis
    unfolding digit_char_def by (metis nth_eq_iff_index_eq)
qed

lemma str_of_nat_small: "n < 10 \<Longrightarrow> str_of_nat n = [digit_char n]"
  by (subst str_of_nat.simps) simp

lemma str_of_nat_large:
  "\<not> n < 10 \<Longrightarrow> str_of_nat n = str_of_nat (n div 10) @ [digit_char (n mod 10)]"
  by (subst str_of_nat.simps) simp

lemma str_of_nat_nonempty: "str_of_nat n \<noteq> []"
  by (cases "n < 10") (simp_all add: str_of_nat_small str_of_nat_large)

lemma str_of_nat_small_large:
  assumes "m < 10" "\<not> n < 10"
  shows "str_of_nat m \<noteq> str_of_nat n"
proof
  assume "str_of_nat m = str_of_nat n"
  with assms have "[digit_char m] = str_of_nat (n div 10) @ [digit_char (n mod 10)]"
    by (simp add: str_of_nat_small str_of_nat_large)
  then have "str_of_nat (n div 10) = []" by simp
  then show False by (simp add: str_of_nat_nonempty)
qed

lemma str_of_nat_inj: "str_of_nat m = str_of_nat n \<Longrightarrow> m = n"
proof (induction m arbitrary: n rule: str_of_nat.induct)
  case (1 m)
  show ?case
  proof (cases "m < 10")
    case m: True
    show ?thesis
    proof (cases "n < 10")
      case True
      with m "1.prems" show ?thesis
        by (simp add: str_of_nat_small digit_char_inj)
    next
      case False
      with m "1.prems" show ?thesis
        using str_of_nat_small_large by blast
    qed
  next
    case m: False
    show ?thesis
    proof (cases "n < 10")
      case True
      with m "1.prems" show ?thesis
        using str_of_nat_small_large[of n m] by simp
    next
      case False
      with m "1.prems" have eq: "str_of_nat (m div 10) = str_of_nat (n div 10)"
        and dg: "digit_char (m mod 10) = digit_char (n mod 10)"
        by (simp_all add: str_of_nat_large)
      from "1.IH"[OF m eq] have "m div 10 = n div 10" .
      moreover from dg have "m mod 10 = n mod 10"
        by (intro digit_char_inj) simp_all
      ultimately show ?thesis by (metis div_mult_mod_eq)
    qed
  qed
qed

lemma chapter_id_inj: "chapter_id p i = chapter_id p j \<Longrightarrow> i = j"
  by (simp add: chapter_id_def str_of_nat_inj)

lemma group_id_inj: "group_id p i = group_id p j \<Longrightarrow> i = j"
  by (simp add: group_id_def str_of_nat_inj)

lemma chunk_path_inj: "chunk_path a = chunk_path b \<Longrightarrow> a = b"
  by (simp add: chunk_path_def)

lemma save_chunk_writable:
  "writable e (chunk_path section_id) \<Longrightarrow>
   save_chunk e section_id descr chunk_content (fs, en, n) =
     (fs(chunk_path section_id := Content (py_strip chunk_content)),
      dict_set en section_id \<lparr>description = descr, chunk_file = chunk_path section_id\<rparr>,
      Suc n)"
  by (simp add: save_chunk_def write_file_def)

lemma save_chunk_unwritable:
  "\<not> writable e (chunk_path section_id) \<Longrightarrow>
   save_chunk e section_id descr chunk_content st = st"
  by (cases st) (simp add: save_chunk_def write_file_def)

lemma write_chunks_Nil: "write_chunks fs [] = fs"
  by (simp add: write_chunks_def)

lemma write_chunks_Cons:
  "write_chunks fs ((path, body) # ws) = write_chunks (fs(path := Content body)) ws"
  by (simp add: write_chunks_def)

lemma h1_loop_skip:
  "\<not> chapter_keep e p x \<Longrightarrow> h1_loop e p (x # xs) st = h1_loop e p xs st"
  by (cases x) (auto simp: chapter_keep_def Let_def save_chunk_unwritable)

lemma h1_loop_keep:
  assumes "chapter_keep e p x" and "chapter_id p (fst x) \<notin> set (dict_keys en)"
  shows "h1_loop e p (x # xs) (fs, en, n) =
           h1_loop e p xs
             (fs(fst (chapter_write p x) := Content (snd (chapter_write p x))),
              en @ [chapter_entry p x], Suc n)"
  using assms
  by (cases x)
     (simp add: chapter_keep_def Let_def save_chunk_writable dict_set_new chapter_entry_def
        chapter_body_def chapter_write_def)

lemma h1_loop_char:
  assumes "distinct (map fst xs)"
      and "\<forall>x \<in> set xs. chapter_id p (fst x) \<notin> set (dict_keys en)"
  shows "h1_loop e p xs (fs, en, n) =
           (write_chunks fs (map (chapter_write p) (filter (chapter_keep e p) xs)),
            en @ map (chapter_entry p) (filter (chapter_keep e p) xs),
            n + length (filter (chapter_keep e p) xs))"
  using assms
proof (induction xs arbitrary: fs en n)
  case Nil
  then show ?case by (simp add: write_chunks_Nil)
next
  case (Cons x xs)
  from Cons.prems have dxs: "distinct (map fst xs)" and ixs: "fst x \<notin> fst ` set xs"
    and fresh: "\<forall>y \<in> set xs. chapter_id p (fst y) \<notin> set (dict_keys en)"
    and ifresh: "chapter_id p (fst x) \<notin> set (dict_keys en)"
    by auto
  show ?case
  proof (cases "chapter_keep e p x")
    case False
    then show ?thesis
      by (simp add: h1_loop_skip Cons.IH[OF dxs fresh])
  next
    case True
    let ?en = "en @ [chapter_entry p x]"
    have fresh': "\<forall>y \<in> set xs. chapter_id p (fst y) \<notin> set (dict_keys ?en)"
    proof
      fix y assume y: "y \<in> set xs"
      then have "fst y \<in> fst ` set xs" by (rule imageI)
      with ixs have "fst y \<noteq> fst x" by metis
      then have "chapter_id p (fst y) \<noteq> chapter_id p (fst x)" using chapter_id_inj by blast
      with fresh y show "chapter_id p (fst y) \<notin> set (dict_keys ?en)"
        by (simp add: dict_keys_def chapter_entry_def)
    qed
    obtain path body where cw: "chapter_write p x = (path, body)"
      by (cases "chapter_write p x")
    from True show ?thesis
      by (simp add: h1_loop_keep[OF True ifresh] Cons.IH[OF dxs fresh'] cw write_chunks_Cons
            fun_upd_def)
  qed
qed

lemma h1_loop_enumerate:
  "h1_loop e p (enumerate 0 fragments) (fs, [], 0) =
     (write_chunks fs (map (chapter_write p) (filter (chapter_keep e p) (enumerate 0 fragments))),
      map (chapter_entry p) (filter (chapter_keep e p) (enumerate 0 fragments)),
      length (filter (chapter_keep e p) (enumerate 0 fragments)))"
  using h1_loop_char[of "enumerate 0 fragments" p "[]" e fs 0]
  by (simp add: dict_keys_def)




lemmas chunker_eval =
  re_split_def py_strip_def py_isspace_def nl_def first_line_def rest_lines_def
  chapter_id_def group_id_def chunk_path_def CHUNKS_DIR_def digit_char_def
  str_of_nat.simps[of 0] str_of_nat.simps[of 1] str_of_nat.simps[of 2]
  str_of_nat.simps[of 3] str_of_nat.simps[of "Suc 0"] str_of_nat.simps[of "Suc (Suc 0)"]
  str_of_nat.simps[of "Suc 1"]

lemma writable_demo: "writable (demo_env decision) p"
  by (simp add: demo_env_def)





section \<open>The chunker: grouping of second-level sections\<close>

lemma h2_loop_blank:
  "py_strip s = [] \<Longrightarrow> h2_loop e p (s # rest) cur st = h2_loop e p rest cur st"
  by simp

lemma h2_loop_first:
  assumes "py_strip a \<noteq> []"
  shows "h2_loop e p (a # rest) ([], []) st
           = h2_loop e p rest ([snd (h2_section a)], [fst (h2_section a)]) st"
  using assms by (simp add: Let_def h2_section_def sections_per_chunk_def)

lemma h2_loop_second:
  assumes "py_strip b \<noteq> []"
  shows "h2_loop e p (b # rest) ([x], [t]) st
           = h2_loop e p rest ([], []) (save_group e p st [(t, x), h2_section b])"
  using assms
  by (simp add: Let_def h2_section_def sections_per_chunk_def save_group_def
        group_description_def)

lemma h2_loop_filter:
  "h2_loop e p secs cur st = h2_loop e p (filter (\<lambda>s. py_strip s \<noteq> []) secs) cur st"
proof (induction secs arbitrary: cur st)
  case Nil
  then show ?case by simp
next
  case (Cons s secs)
  show ?case
  proof (cases "py_strip s = []")
    case True
    then show ?thesis by (simp add: Cons.IH)
  next
    case False
    then show ?thesis
      by (simp add: Let_def Cons.IH[symmetric])
  qed
qed

lemma h2_loop_batches:
  assumes "\<forall>s \<in> set xs. py_strip s \<noteq> []"
  shows "flush e p (h2_loop e p xs ([], []) st)
           = foldl (save_group e p) st (batches (map h2_section xs))"
  using assms
proof (induction xs arbitrary: st rule: batches.induct)
  case 1
  then show ?case by (simp add: flush_def)
next
  case (2 a)
  then have "py_strip a \<noteq> []" by simp
  then show ?case
    by (cases "h2_section a")
       (simp add: h2_loop_first flush_def save_group_def rest_description_def
          del: h2_loop.simps(2))
next
  case (3 a b r)
  then have a: "py_strip a \<noteq> []" and b: "py_strip b \<noteq> []"
    and r: "\<forall>s \<in> set r. py_strip s \<noteq> []" by simp_all
  have "h2_loop e p (a # b # r) ([], []) st
      = h2_loop e p r ([], []) (save_group e p st [h2_section a, h2_section b])"
    by (simp only: h2_loop_first[OF a] h2_loop_second[OF b] prod.collapse)
  then show ?case
    by (simp add: "3.IH"[OF r] del: h2_loop.simps(2))
qed

lemma h2_grouping_fold:
  "h2_grouping e p content st
     = foldl (save_group e p) st (batches (h2_sections_of content))"
proof -
  let ?xs = "filter (\<lambda>s. py_strip s \<noteq> []) (drop 1 (re_split ''## '' content))"
  have "h2_grouping e p content st
      = flush e p (h2_loop e p (drop 1 (re_split ''## '' content)) ([], []) st)"
    by (simp add: h2_grouping_def flush_def Let_def split: prod.splits)
  also have "\<dots> = flush e p (h2_loop e p ?xs ([], []) st)"
    by (subst h2_loop_filter) simp
  also have "\<dots> = foldl (save_group e p) st (batches (map h2_section ?xs))"
    by (rule h2_loop_batches) simp
  finally show ?thesis by (simp add: h2_sections_of_def)
qed


lemma save_group_writable:
  assumes "writable e (chunk_path (group_id p (Suc (length en))))"
      and "group_id p (Suc (length en)) \<notin> set (dict_keys en)"
  shows "save_group e p (fs, en, c) b =
           (fs(fst (group_write p (Suc (length en), b))
                 := Content (snd (group_write p (Suc (length en), b)))),
            en @ [group_entry p (Suc (length en), b)], Suc c)"
  using assms
  by (simp add: save_group_def save_chunk_writable dict_set_new group_write_def
        group_entry_def batch_body_def)

lemma save_group_unwritable:
  "\<not> writable e (chunk_path (group_id p (Suc (length (fst (snd st)))))) \<Longrightarrow>
   save_group e p st b = st"
  by (simp add: save_group_def save_chunk_unwritable)

lemma save_groups_char:
  assumes "set (dict_keys en) \<subseteq> group_id p ` {1..length en}"
  shows "foldl (save_group e p) (fs, en, c) bs =
           (write_chunks fs (map (group_write p) (numbered_groups e p (length en) bs)),
            en @ map (group_entry p) (numbered_groups e p (length en) bs),
            c + length (numbered_groups e p (length en) bs))"
  using assms
proof (induction bs arbitrary: fs en c)
  case Nil
  then show ?case by (simp add: write_chunks_Nil)
next
  case (Cons b bs)
  let ?n = "Suc (length en)"
  show ?case
  proof (cases "writable e (chunk_path (group_id p ?n))")
    case False
    then show ?thesis
      by (simp add: save_group_unwritable Cons.IH[OF Cons.prems])
  next
    case True
    have fresh: "group_id p ?n \<notin> set (dict_keys en)"
    proof
      assume "group_id p ?n \<in> set (dict_keys en)"
      with Cons.prems obtain k where "k \<in> {1..length en}" "group_id p ?n = group_id p k"
        by blast
      then show False using group_id_inj[of p ?n k] by simp
    qed
    let ?en = "en @ [group_entry p (?n, b)]"
    have inv: "set (dict_keys ?en) \<subseteq> group_id p ` {1..length ?en}"
    proof -
      have "{1..length ?en} = insert ?n {1..length en}" by auto
      with Cons.prems show ?thesis
        by (auto simp: dict_keys_def group_entry_def)
    qed
    obtain path body where gw: "group_write p (?n, b) = (path, body)"
      by (cases "group_write p (?n, b)")
    from True show ?thesis
      using Cons.IH[OF inv]
      by (simp add: save_group_writable[OF True fresh] gw write_chunks_Cons fun_upd_def)
  qed
qed

lemma h2_grouping_char:
  "h2_grouping e p content (fs, [], 0) =
     (write_chunks fs (map (group_write p) (groups_of e p content)),
      map (group_entry p) (groups_of e p content),
      length (groups_of e p content))"
  using save_groups_char[of "[]" p e fs 0 "batches (h2_sections_of content)"]
  by (simp add: h2_grouping_fold groups_of_def dict_keys_def)

lemma no_heading_no_chapter:
  "length (re_split ''# '' content) = 1 \<Longrightarrow> chapters_kept e p content = []"
  by (cases "re_split ''# '' content") (simp_all add: chapters_kept_def chapter_keep_def)

lemma numbered_groups_all_writable:
  "(\<forall>path. writable e path) \<Longrightarrow> numbered_groups e p n bs = enumerate (Suc n) bs"
  by (induction bs arbitrary: n) simp_all

text \<open>
  C2, as the code has it. For a document without a top-level heading, the chunker
  splits on second-level headings, leaves out the fragment before the first of them
  and every section that is white space only, and puts the remaining sections, in
  order, into batches of two, with a last batch of one when their number is odd. Each
  batch whose chunk file can be written becomes one chunk: its id is
  \<open>file_prefix_group_n\<close>, where \<open>n\<close> is the number of chunks made so far plus one; its
  description is the title alone for a batch of one and the two titles joined by
  \<open>and\<close> for a batch of two; its file holds the sections joined by a blank line.
  The last batch is saved like the others. When every file can be written, the
  batches are numbered 1, 2, 3 and so on, and none is dropped.
\<close>

theorem fallback_groups_sections:
  assumes "length (re_split ''# '' content) = 1"
  shows "parse_content e fs content file_prefix =
           (write_chunks fs (map (group_write file_prefix) (groups_of e file_prefix content)),
            map (group_entry file_prefix) (groups_of e file_prefix content),
            length (groups_of e file_prefix content))
       \<and> ((\<forall>path. writable e path) \<longrightarrow>
            groups_of e file_prefix content = enumerate 1 (batches (h2_sections_of content)))"
  using no_heading_no_chapter[OF assms]
  by (simp add: parse_content_def Let_def h1_loop_enumerate chapters_kept_def
        write_chunks_Nil h2_grouping_char groups_of_def numbered_groups_all_writable)

lemma gap_doc_no_heading: "length (re_split ''# '' gap_doc) = 1"
  by (simp add: gap_doc_def re_split_def nl_def)

lemma gap_doc_sections:
  "h2_sections_of gap_doc
     = [(''A'', ''## A'' @ [nl] @ ''a'' @ [nl]), (''B'', ''## B'' @ [nl] @ ''b'' @ [nl]),
        (''C'', ''## C'' @ [nl] @ ''c'' @ [nl])]"
  by (simp add: h2_sections_of_def h2_section_def gap_doc_def chunker_eval)

theorem fallback_groups_sections_witness:
  "length (re_split ''# '' gap_doc) = 1
   \<and> (\<forall>path. writable (demo_env JNull) path)
   \<and> snd (parse_content (demo_env JNull) demo_files gap_doc ''doc'')
       = ([(''doc_group_1'',
            \<lparr>description = ''A and B'', chunk_file = ''chunks/doc_group_1.txt''\<rparr>),
           (''doc_group_2'',
            \<lparr>description = ''C'', chunk_file = ''chunks/doc_group_2.txt''\<rparr>)], 2)"
proof -
  have w: "\<forall>path. writable (demo_env JNull) path" by (simp add: writable_demo)
  from fallback_groups_sections[OF gap_doc_no_heading, of "demo_env JNull" demo_files "''doc''"] w
  have g: "groups_of (demo_env JNull) ''doc'' gap_doc
             = enumerate 1 (batches (h2_sections_of gap_doc))"
    and p: "snd (parse_content (demo_env JNull) demo_files gap_doc ''doc'')
             = (map (group_entry ''doc'') (groups_of (demo_env JNull) ''doc'' gap_doc),
                length (groups_of (demo_env JNull) ''doc'' gap_doc))"
    by simp_all
  have "snd (parse_content (demo_env JNull) demo_files gap_doc ''doc'')
       = ([(''doc_group_1'',
            \<lparr>description = ''A and B'', chunk_file = ''chunks/doc_group_1.txt''\<rparr>),
           (''doc_group_2'',
            \<lparr>description = ''C'', chunk_file = ''chunks/doc_group_2.txt''\<rparr>)], 2)"
    unfolding p g gap_doc_sections
    by (simp add: group_entry_def chunker_eval)
  with gap_doc_no_heading w show ?thesis by blast
qed

lemma gap_doc_produced:
  "map (\<lambda>(section_id, details). (section_id, description details))
     (fst (snd (parse_content (demo_env JNull) demo_files gap_doc ''doc'')))
     = [(''doc_group_1'', ''A and B''), (''doc_group_2'', ''C'')]"
  by (simp add: parse_content_def gap_doc_def h2_grouping_def Let_def save_chunk_def
        write_file_def writable_demo sections_per_chunk_def group_description_def
        rest_description_def chunker_eval)

lemma gap_doc_spec:
  "spec_group_chunks ''doc'' gap_doc
     = [(''doc_group_1'', ''A and ''), (''doc_group_2'', ''B and C'')]"
  by (simp add: spec_group_chunks_def h2_section_def gap_doc_def chunker_eval)

text \<open>
  C2 as stated groups consecutive headings. The code leaves out a section that is
  white space only before grouping: in the document with the headings A, a blank
  one, B and C, the chunks are \<open>A and B\<close> and \<open>C\<close>, not the pairs of consecutive
  headings.
\<close>

theorem blank_section_shifts_groups:
  "length (re_split ''# '' gap_doc) = 1
   \<and> map (\<lambda>(section_id, details). (section_id, description details))
       (fst (snd (parse_content (demo_env JNull) demo_files gap_doc ''doc'')))
       = [(''doc_group_1'', ''A and B''), (''doc_group_2'', ''C'')]
   \<and> spec_group_chunks ''doc'' gap_doc
       = [(''doc_group_1'', ''A and ''), (''doc_group_2'', ''B and C'')]
   \<and> map (\<lambda>(section_id, details). (section_id, description details))
       (fst (snd (parse_content (demo_env JNull) demo_files gap_doc ''doc'')))
       \<noteq> spec_group_chunks ''doc'' gap_doc"
  unfolding gap_doc_produced gap_doc_spec by (simp add: gap_doc_no_heading)

section \<open>Running the chunker again\<close>

lemma write_chunks_apply:
  "write_chunks fs ws x = (case map_of (rev ws) x of Some b \<Rightarrow> Content b | None \<Rightarrow> fs x)"
proof (induction ws arbitrary: fs)
  case Nil
  then show ?case by (simp add: write_chunks_Nil)
next
  case (Cons w ws)
  obtain path body where w: "w = (path, body)" by (cases w)
  show ?case
    by (simp add: w write_chunks_Cons Cons.IH map_add_def split: option.splits)
qed

lemma write_chunks_idem: "write_chunks (write_chunks fs ws) ws = write_chunks fs ws"
  by (rule ext) (simp add: write_chunks_apply split: option.splits)

lemma write_chunks_overwrites:
  assumes "x \<in> fst ` set ws"
  shows "\<exists>body. write_chunks fs' ws x = Content body \<and> write_chunks fs ws x = Content body"
proof -
  from assms have "x \<in> fst ` set (rev ws)" by simp
  then have "map_of (rev ws) x \<noteq> None" by (simp add: map_of_eq_None_iff)
  then show ?thesis by (auto simp: write_chunks_apply)
qed

lemma parse_content_independent:
  "\<exists>ws en n. (\<forall>fs. parse_content e fs content p = (write_chunks fs ws, en, n))
             \<and> (chunk_file \<circ> snd) ` set en \<subseteq> fst ` set ws"
proof (cases "chapters_kept e p content = []")
  case True
  let ?gs = "groups_of e p content"
  have "\<forall>fs. parse_content e fs content p
          = (write_chunks fs (map (group_write p) ?gs), map (group_entry p) ?gs, length ?gs)"
    using True
    by (simp add: parse_content_def Let_def h1_loop_enumerate chapters_kept_def
          write_chunks_Nil h2_grouping_char)
  moreover have "(chunk_file \<circ> snd) ` set (map (group_entry p) ?gs)
                   \<subseteq> fst ` set (map (group_write p) ?gs)"
    by (force simp: group_entry_def group_write_def)
  ultimately show ?thesis by blast
next
  case False
  let ?ks = "chapters_kept e p content"
  have "\<forall>fs. parse_content e fs content p
          = (write_chunks fs (map (chapter_write p) ?ks), map (chapter_entry p) ?ks, length ?ks)"
    using False
    by (simp add: parse_content_def Let_def h1_loop_enumerate chapters_kept_def)
  moreover have "(chunk_file \<circ> snd) ` set (map (chapter_entry p) ?ks)
                   \<subseteq> fst ` set (map (chapter_write p) ?ks)"
    by (force simp: chapter_entry_def chapter_write_def)
  ultimately show ?thesis by blast
qed

text \<open>
  C7. With the same document text and source name (and the same files writable), the
  entries and the count that the chunker returns do not depend on what the files held
  before: a second run gives the same section ids and descriptions as the first, since
  ids come from positions. Run again on the files the first run left, it leaves
  everything as it is; and whatever a chunk file held before a run, after the run it
  holds the body of its chunk, so earlier bodies at these ids are overwritten. The
  same holds for \<open>parse_markdown_document\<close> when the document file is unchanged.
\<close>

theorem rechunking_is_idempotent:
  "snd (parse_content e fs' content file_prefix) = snd (parse_content e fs content file_prefix)
   \<and> parse_content e (fst (parse_content e fs content file_prefix)) content file_prefix
       = parse_content e fs content file_prefix
   \<and> (\<forall>(section_id, details) \<in> set (fst (snd (parse_content e fs content file_prefix))).
         \<exists>body. fst (parse_content e fs' content file_prefix) (chunk_file details) = Content body
              \<and> fst (parse_content e fs content file_prefix) (chunk_file details) = Content body)
   \<and> (fs' file_path = fs file_path \<longrightarrow>
         snd (parse_markdown_document e fs' file_path)
           = snd (parse_markdown_document e fs file_path))"
proof -
  have ind: "\<exists>ws en n. (\<forall>fs. parse_content e fs c p = (write_chunks fs ws, en, n))
             \<and> (chunk_file \<circ> snd) ` set en \<subseteq> fst ` set ws" for c p
    by (rule parse_content_independent)
  from ind[of content "file_prefix"] obtain ws en n
    where form: "\<And>fs. parse_content e fs content file_prefix = (write_chunks fs ws, en, n)"
      and files: "(chunk_file \<circ> snd) ` set en \<subseteq> fst ` set ws"
    by blast
  have 1: "snd (parse_content e fs' content file_prefix)
             = snd (parse_content e fs content file_prefix)"
    by (simp add: form)
  have 2: "parse_content e (fst (parse_content e fs content file_prefix)) content file_prefix
             = parse_content e fs content file_prefix"
    by (simp add: form write_chunks_idem)
  have 3: "\<forall>(section_id, details) \<in> set (fst (snd (parse_content e fs content file_prefix))).
         \<exists>body. fst (parse_content e fs' content file_prefix) (chunk_file details) = Content body
              \<and> fst (parse_content e fs content file_prefix) (chunk_file details) = Content body"
  proof (clarify)
    fix section_id details
    assume "(section_id, details) \<in> set (fst (snd (parse_content e fs content file_prefix)))"
    then have "(section_id, details) \<in> set en" by (simp add: form)
    then have "(chunk_file \<circ> snd) (section_id, details) \<in> (chunk_file \<circ> snd) ` set en"
      by (rule imageI)
    with files have "chunk_file details \<in> fst ` set ws" by auto
    from write_chunks_overwrites[OF this, of fs' fs]
    show "\<exists>body. fst (parse_content e fs' content file_prefix) (chunk_file details) = Content body
              \<and> fst (parse_content e fs content file_prefix) (chunk_file details) = Content body"
      by (simp add: form)
  qed
  have 4: "snd (parse_markdown_document e fs' file_path)
             = snd (parse_markdown_document e fs file_path)"
    if same: "fs' file_path = fs file_path"
  proof (cases "fs file_path")
    case (Content c)
    from ind[of c "file_prefix_of (path_stem e file_path)"] obtain ws' en' n'
      where "\<And>fs. parse_content e fs c (file_prefix_of (path_stem e file_path))
                    = (write_chunks fs ws', en', n')"
      by blast
    with Content same show ?thesis by (simp add: parse_markdown_document_def)
  next
    case Missing
    with same show ?thesis by (simp add: parse_markdown_document_def)
  next
    case (Unreadable msg)
    with same show ?thesis by (simp add: parse_markdown_document_def)
  qed
  from 1 2 3 4 show ?thesis by blast
qed


lemma scenario_doc_entries:
  "snd (parse_content (demo_env JNull) demo_files scenario_doc ''doc'') = (demo_directory, 2)"
  by (simp add: parse_content_def scenario_doc_def Let_def save_chunk_def write_file_def
        writable_demo demo_directory_def chunker_eval)

theorem rechunking_is_idempotent_witness:
  "snd (parse_content (demo_env JNull)
          (fst (parse_content (demo_env JNull) demo_files scenario_doc ''doc''))
          scenario_doc ''doc'') = (demo_directory, 2)
   \<and> parse_content (demo_env JNull)
          (fst (parse_content (demo_env JNull) demo_files scenario_doc ''doc''))
          scenario_doc ''doc''
       = parse_content (demo_env JNull) demo_files scenario_doc ''doc''
   \<and> (\<exists>body. fst (parse_content (demo_env JNull) lost_files scenario_doc ''doc'')
                  ''chunks/doc_chapter_1.txt'' = Content body
             \<and> fst (parse_content (demo_env JNull) demo_files scenario_doc ''doc'')
                  ''chunks/doc_chapter_1.txt'' = Content body)
   \<and> lost_files ''doc.md'' = demo_files ''doc.md''
   \<and> snd (parse_markdown_document (demo_env JNull) lost_files ''doc.md'')
       = snd (parse_markdown_document (demo_env JNull) demo_files ''doc.md'')"
proof -
  let ?e = "demo_env JNull"
  let ?first = "parse_content ?e demo_files scenario_doc ''doc''"
  note a = rechunking_is_idempotent[of ?e "fst ?first" scenario_doc "''doc''" demo_files]
  from a have 1: "snd (parse_content ?e (fst ?first) scenario_doc ''doc'') = (demo_directory, 2)"
    by (simp add: scenario_doc_entries)
  from a have 2: "parse_content ?e (fst ?first) scenario_doc ''doc'' = ?first"
    by blast
  note b = rechunking_is_idempotent[of ?e lost_files scenario_doc "''doc''" demo_files
             "''doc.md''"]
  have m: "(''doc_chapter_1'',
            \<lparr>description = ''Overview'', chunk_file = ''chunks/doc_chapter_1.txt''\<rparr>)
           \<in> set (fst (snd ?first))"
    by (simp add: scenario_doc_entries demo_directory_def)
  from b have "\<forall>(section_id, details) \<in> set (fst (snd ?first)).
         \<exists>body. fst (parse_content ?e lost_files scenario_doc ''doc'') (chunk_file details)
                  = Content body
              \<and> fst ?first (chunk_file details) = Content body"
    by blast
  with m have 3: "\<exists>body. fst (parse_content ?e lost_files scenario_doc ''doc'')
                  ''chunks/doc_chapter_1.txt'' = Content body
             \<and> fst ?first ''chunks/doc_chapter_1.txt'' = Content body"
    by fastforce
  have 4: "lost_files ''doc.md'' = demo_files ''doc.md''"
    by (simp add: lost_files_def)
  with b have 5: "snd (parse_markdown_document ?e lost_files ''doc.md'')
       = snd (parse_markdown_document ?e demo_files ''doc.md'')"
    by blast
  from 1 2 3 4 5 show ?thesis by blast
qed

section \<open>Directories built by the chunker\<close>

text \<open>
  Every entry that the chunker returns points to the chunk file named after its id,
  and merging keeps this: in a directory built from parsed documents no two entries
  share a chunk file, which is what the theorem on the order of the combined context
  asks of the directory.
\<close>

lemma chunker_located_append:
  "chunker_located (a @ b) = (chunker_located a \<and> chunker_located b)"
  by (simp add: chunker_located_def)

lemma dict_set_located:
  "chunker_located d \<Longrightarrow> chunk_file v = chunk_path k \<Longrightarrow> chunker_located (dict_set d k v)"
  by (induction d) (auto simp: chunker_located_def)

lemma dict_update_located:
  "chunker_located d \<Longrightarrow> chunker_located other \<Longrightarrow> chunker_located (dict_update d other)"
proof (induction other arbitrary: d)
  case Nil
  then show ?case by (simp add: dict_update_Nil)
next
  case (Cons x other)
  obtain k v where x: "x = (k, v)" by (cases x)
  from Cons.prems(2) have kv: "chunk_file v = chunk_path k" and rest: "chunker_located other"
    by (simp_all add: x chunker_located_def)
  show ?case
    by (simp add: x dict_update_Cons Cons.IH[OF dict_set_located[OF Cons.prems(1) kv] rest])
qed

lemma distinct_dict_update:
  "distinct (dict_keys d) \<Longrightarrow> distinct (dict_keys (dict_update d other))"
proof (induction other arbitrary: d)
  case Nil
  then show ?case by (simp add: dict_update_Nil)
next
  case (Cons x other)
  obtain k v where x: "x = (k, v)" by (cases x)
  from Cons.prems have "distinct (dict_keys (dict_set d k v))"
    by (simp add: keys_dict_set)
  then show ?case
    by (simp add: x dict_update_Cons Cons.IH)
qed

lemma parse_content_located:
  "chunker_located (fst (snd (parse_content e fs content p)))"
proof (cases "chapters_kept e p content = []")
  case True
  then have "fst (snd (parse_content e fs content p))
      = map (group_entry p) (groups_of e p content)"
    by (simp add: parse_content_def Let_def h1_loop_enumerate chapters_kept_def
          write_chunks_Nil h2_grouping_char)
  then show ?thesis
    by (simp add: chunker_located_def list_all_iff group_entry_def)
next
  case False
  then have "fst (snd (parse_content e fs content p))
      = map (chapter_entry p) (chapters_kept e p content)"
    by (simp add: parse_content_def Let_def h1_loop_enumerate chapters_kept_def)
  then show ?thesis
    by (simp add: chunker_located_def list_all_iff chapter_entry_def)
qed

lemma located_distinct_files:
  assumes "chunker_located d" and "distinct (dict_keys d)"
  shows "distinct (map (chunk_file \<circ> snd) d)"
proof -
  from assms(1) have "map (chunk_file \<circ> snd) d = map chunk_path (dict_keys d)"
    by (induction d) (auto simp: chunker_located_def dict_keys_def)
  moreover have "inj_on chunk_path (set (dict_keys d))"
    by (rule inj_onI) (rule chunk_path_inj)
  ultimately show ?thesis using assms(2) by (simp add: distinct_map)
qed


lemma parse_markdown_document_located:
  "chunker_located (fst (snd (parse_markdown_document e fs file_path)))"
proof (cases "fs file_path")
  case (Content c)
  then show ?thesis
    by (simp add: parse_markdown_document_def parse_content_located)
next
  case Missing
  then show ?thesis by (simp add: parse_markdown_document_def chunker_located_def)
next
  case (Unreadable msg)
  then show ?thesis by (simp add: parse_markdown_document_def chunker_located_def)
qed

lemma build_loop_located:
  assumes "chunker_located directory" and "distinct (dict_keys directory)"
  shows "chunker_located (fst (snd (build_loop e knowledge_files (fs, directory, n))))
       \<and> distinct (dict_keys (fst (snd (build_loop e knowledge_files (fs, directory, n)))))"
  using assms
proof (induction knowledge_files arbitrary: fs directory n)
  case Nil
  then show ?case by simp
next
  case (Cons file_path rest)
  obtain fs' new_entries chunk_count
    where p: "parse_markdown_document e fs file_path = (fs', new_entries, chunk_count)"
    by (cases "parse_markdown_document e fs file_path")
  from parse_markdown_document_located[of e fs file_path] p
  have new: "chunker_located new_entries" by simp
  from Cons.prems new have upd: "chunker_located (dict_update directory new_entries)"
    "distinct (dict_keys (dict_update directory new_entries))"
    by (simp_all add: dict_update_located distinct_dict_update)
  show ?case
    using Cons.IH[OF Cons.prems] Cons.IH[OF upd]
    by (simp add: p)
qed

end
